theory Spec2Isabelle
  imports Complex_Main
begin

section \<open>Values, exceptions and the object store\<close>

text \<open>
  Python exceptions are values of \<open>exn\<close>; a call that may raise returns \<open>exn + 'a\<close>
  with \<open>Inl\<close> for the raised exception. All of them are subclasses of \<open>Exception\<close>.
  \<open>UnitError\<close> is an exception of a spawned unit's own, tagged so that distinct
  failures can be told apart; \<open>ExceptionGroup\<close> is what a trio nursery or an anyio task
  group raises for the exceptions of its children. The cancellation exception of the
  active runtime (\<open>asyncio.CancelledError\<close>, \<open>trio.Cancelled\<close>,
  \<open>anyio.get_cancelled_exc_class()\<close>) is not among them: it derives from
  \<open>BaseException\<close>, and a unit that leaves through it has the outcome \<open>Cancelled\<close>
  below. Python floats are modelled by the reals, so rounding and overflow are outside
  the model.
\<close>

datatype exn =
    IndexError | KeyError | ZeroDivisionError | TypeError | AttributeError
  | UnitError nat | ExceptionGroup "exn list"

text \<open>\<open>range(n)\<close> is empty for a negative \<open>n\<close>.\<close>

definition py_range :: "int \<Rightarrow> nat list" where
  "py_range n = [0..<nat n]"

text \<open>
  The numbers and strings that metrics and result documents hold; \<open>VInf\<close> is
  \<open>float("inf")\<close>, \<open>VRef\<close> a reference to an object of the object store. A \<open>dict\<close>
  keeps its keys in insertion order; assigning to an existing key keeps its place.
\<close>

datatype val = VInt int | VFloat real | VInf | VStr string | VRef nat

type_synonym dict = "(string \<times> val) list"

fun dict_set :: "dict \<Rightarrow> string \<Rightarrow> val \<Rightarrow> dict" where
  "dict_set [] k v = [(k, v)]"
| "dict_set ((k', v') # d) k v = (if k' = k then (k, v) # d else (k', v') # dict_set d k v)"

text \<open>\<open>d.update(other)\<close> assigns the items of \<open>other\<close> in their order.\<close>

fun dict_update :: "dict \<Rightarrow> dict \<Rightarrow> dict" where
  "dict_update d [] = d"
| "dict_update d ((k, v) # other) = dict_update (dict_set d k v) other"

definition dict_get :: "dict \<Rightarrow> string \<Rightarrow> exn + val" where
  "dict_get d k = (case map_of d k of None \<Rightarrow> Inl KeyError | Some v \<Rightarrow> Inr v)"

type_synonym addr = nat

text \<open>
  List objects live in a store, addressed by position; creating an object appends it, so
  the new address is the old size of the store and no live address changes meaning.
\<close>

type_synonym store = "real list list"

definition new_list :: "store \<Rightarrow> real list \<Rightarrow> store \<times> addr" where
  "new_list h xs = (h @ [xs], length h)"

definition sort_in_place :: "store \<Rightarrow> addr \<Rightarrow> store" where
  "sort_in_place h a = h[a := sort (h ! a)]"

text \<open>\<open>int(k)\<close> on a float truncates towards zero.\<close>

definition py_int :: "real \<Rightarrow> int" where
  "py_int k = (if 0 \<le> k then \<lfloor>k\<rfloor> else \<lceil>k\<rceil>)"

text \<open>\<open>xs[i]\<close>: a negative index counts from the end, an index out of range raises.\<close>

definition getitem :: "'a list \<Rightarrow> int \<Rightarrow> exn + 'a" where
  "getitem xs i =
     (if 0 \<le> i \<and> i < int (length xs) then Inr (xs ! nat i)
      else if i < 0 \<and> 0 \<le> int (length xs) + i then Inr (xs ! nat (int (length xs) + i))
      else Inl IndexError)"

section \<open>utils.py\<close>

text \<open>
  \<open>percentile\<close>: \<open>vals = list(values)\<close> creates a new list object, \<open>vals.sort()\<close>
  sorts that object in place. The function returns the store it leaves behind and its
  result.
\<close>

definition percentile_st :: "store \<Rightarrow> addr \<Rightarrow> real \<Rightarrow> store \<times> (exn + real)" where
  "percentile_st h values pct =
     (let (h1, vals) = new_list h (h ! values) in
      if h1 ! vals = [] then (h1, Inr 0)
      else
        let h2 = sort_in_place h1 vals;
            k = (real (length (h2 ! vals)) - 1) * (pct / 100);
            f = py_int k;
            c = min (f + 1) (int (length (h2 ! vals)) - 1)
        in if f = c then (h2, getitem (h2 ! vals) (py_int k))
           else
             (h2,
              case getitem (h2 ! vals) f of
                Inl e \<Rightarrow> Inl e
              | Inr vf \<Rightarrow>
                  (case getitem (h2 ! vals) c of
                     Inl e \<Rightarrow> Inl e
                   | Inr vc \<Rightarrow>
                       Inr (vf * (real_of_int c - k) + vc * (k - real_of_int f)))))"

text \<open>\<open>mean\<close>: \<open>statistics.mean\<close> of a non-empty list is its sum over its length.\<close>

definition mean_st :: "store \<Rightarrow> addr \<Rightarrow> store \<times> real" where
  "mean_st h values =
     (let (h1, vals) = new_list h (h ! values) in
      (h1, if h1 ! vals \<noteq> [] then sum_list (h1 ! vals) / real (length (h1 ! vals)) else 0))"

text \<open>The result of a call on a list given by value: the list is the only object.\<close>

definition percentile :: "real list \<Rightarrow> real \<Rightarrow> exn + real" where
  "percentile values pct = snd (percentile_st [values] 0 pct)"

definition mean :: "real list \<Rightarrow> real" where
  "mean values = snd (mean_st [values] 0)"

text \<open>
  The linear-interpolation reference, in the words of the specification: sort the sample,
  take the rank \<open>k = (n - 1) * pct / 100\<close> and interpolate linearly between the order
  statistics at \<open>floor k\<close> and \<open>ceil k\<close>. It has no value where one of the two order
  statistics does not exist.
\<close>

definition order_statistic :: "real list \<Rightarrow> int \<Rightarrow> real option" where
  "order_statistic xs i =
     (if 0 \<le> i \<and> i < int (length xs) then Some (sort xs ! nat i) else None)"

definition linear_reference :: "real list \<Rightarrow> real \<Rightarrow> real option" where
  "linear_reference values pct =
     (let k = (real (length values) - 1) * pct / 100 in
      case order_statistic values \<lfloor>k\<rfloor> of
        None \<Rightarrow> None
      | Some lo \<Rightarrow>
          (case order_statistic values \<lceil>k\<rceil> of
             None \<Rightarrow> None
           | Some hi \<Rightarrow> Some (lo + (hi - lo) * (k - real_of_int \<lfloor>k\<rfloor>))))"

section \<open>backends.py\<close>

text \<open>
  A spawned unit leaves in one of three ways: it returns a value, it raises an exception
  of its own, or the runtime's cancellation exception propagates out of it.
\<close>

datatype 'a outcome = Returned 'a | Raised exn | Cancelled

text \<open>
  What a backend call does, in order: \<open>Spawn i\<close> launches unit \<open>i\<close>
  (\<open>create_task\<close>, \<open>start_soon\<close>); \<open>Suspend\<close> is a suspension point of the caller
  (a sleep, or the wait for the units), the only places where units run; \<open>Exit i out\<close>
  is unit \<open>i\<close> leaving; \<open>Cancel i\<close> is the cancellation signal of a storm issued to
  unit \<open>i\<close>; \<open>Abort i\<close> is a nursery or task group cancelling child \<open>i\<close> because a
  sibling raised; \<open>Surface e\<close> is the call raising \<open>e\<close> to its caller.
\<close>

datatype 'a event = Spawn nat | Suspend | Exit nat "'a outcome" | Cancel nat | Abort nat | Surface exn

datatype backend = AsyncioBackend | TrioBackend | AnyioBackend

fun name :: "backend \<Rightarrow> string" where
  "name AsyncioBackend = ''asyncio''"
| "name TrioBackend = ''trio''"
| "name AnyioBackend = ''anyio''"

definition BACKENDS :: "string \<rightharpoonup> backend" where
  "BACKENDS = [''asyncio'' \<mapsto> AsyncioBackend, ''trio'' \<mapsto> TrioBackend, ''anyio'' \<mapsto> AnyioBackend]"

subsection \<open>spawn\_many\<close>

text \<open>
  \<open>fn i\<close> is what \<open>fn(i)\<close> does when it runs to its end: it returns a value or raises.
  The schedule \<open>sched\<close> is the order in which the units complete; it is the runtime's
  choice, and a run in which every unit completes lists each index once.

  \<open>asyncio.gather(*tasks)\<close>, with \<open>return_exceptions\<close> left at its default: when a
  task raises, the awaiting caller is resumed with that exception at once, and the other
  tasks are neither cancelled nor awaited; when no task raises, the caller is resumed
  once all are done, with the results in the order of the arguments.
\<close>

fun gather :: "(nat \<Rightarrow> exn + 'a) \<Rightarrow> nat list \<Rightarrow> (nat \<rightharpoonup> 'a) \<Rightarrow> 'a event list \<times> (exn + (nat \<rightharpoonup> 'a))" where
  "gather tasks [] finished = ([], Inr finished)"
| "gather tasks (i # sched) finished =
     (case tasks i of
        Inr v \<Rightarrow>
          (let (tr, r) = gather tasks sched (finished(i \<mapsto> v)) in (Exit i (Returned v) # tr, r))
      | Inl e \<Rightarrow> ([Exit i (Raised e), Surface e], Inl e))"

text \<open>
  An element of the returned list is \<open>Some v\<close> for a stored result \<open>v\<close>; \<open>None\<close> is
  Python's \<open>None\<close>, the content of a slot that was never assigned.
\<close>

definition asyncio_spawn_many ::
  "int \<Rightarrow> (nat \<Rightarrow> exn + 'a) \<Rightarrow> nat list \<Rightarrow> 'a event list \<times> (exn + 'a option list)" where
  "asyncio_spawn_many count fn sched =
     (let tasks = py_range count;
          (tr, r) = gather fn sched Map.empty
      in (map Spawn tasks @ [Suspend] @ tr,
          case r of Inl e \<Rightarrow> Inl e | Inr finished \<Rightarrow> Inr (map finished tasks)))"

text \<open>
  A trio nursery and an anyio task group: the \<open>async with\<close> block is left once every
  child has left. When a child raises, the children that have not left yet are cancelled;
  the block waits until they have left too and then raises the exception in a group. The
  child here is \<open>runner\<close>, \<open>results[idx] = await fn(idx)\<close>: it stores the value when
  \<open>fn(idx)\<close> returns, and lets an exception or a cancellation pass. The group is the
  \<open>ExceptionGroup\<close> of trio's strict exception groups and of anyio 4; a cancelled child
  is taken to be at a suspension point and to let the cancellation pass.
\<close>

fun task_group :: "(nat \<Rightarrow> exn + 'a) \<Rightarrow> nat list \<Rightarrow> 'a option list \<Rightarrow> 'a event list \<times> (exn + 'a option list)" where
  "task_group fn [] results = ([], Inr results)"
| "task_group fn (idx # sched) results =
     (case fn idx of
        Inr v \<Rightarrow>
          (let (tr, r) = task_group fn sched (results[idx := Some v])
           in (Exit idx (Returned v) # tr, r))
      | Inl e \<Rightarrow>
          (Exit idx (Raised e) # map Abort sched @ map (\<lambda>j. Exit j Cancelled) sched
             @ [Surface (ExceptionGroup [e])],
           Inl (ExceptionGroup [e])))"

definition trio_spawn_many ::
  "int \<Rightarrow> (nat \<Rightarrow> exn + 'a) \<Rightarrow> nat list \<Rightarrow> 'a event list \<times> (exn + 'a option list)" where
  "trio_spawn_many count fn sched =
     (let results = replicate (nat count) None;
          (tr, r) = task_group fn sched results
      in (map Spawn (py_range count) @ [Suspend] @ tr, r))"

definition anyio_spawn_many ::
  "int \<Rightarrow> (nat \<Rightarrow> exn + 'a) \<Rightarrow> nat list \<Rightarrow> 'a event list \<times> (exn + 'a option list)" where
  "anyio_spawn_many count fn sched =
     (let results = replicate (nat count) None;
          (tr, r) = task_group fn sched results
      in (map Spawn (py_range count) @ [Suspend] @ tr, r))"

fun spawn_many_run ::
  "backend \<Rightarrow> int \<Rightarrow> (nat \<Rightarrow> exn + 'a) \<Rightarrow> nat list \<Rightarrow> 'a event list \<times> (exn + 'a option list)" where
  "spawn_many_run AsyncioBackend count fn sched = asyncio_spawn_many count fn sched"
| "spawn_many_run TrioBackend count fn sched = trio_spawn_many count fn sched"
| "spawn_many_run AnyioBackend count fn sched = anyio_spawn_many count fn sched"

text \<open>What the caller of \<open>spawn_many\<close> gets, and the events of the call.\<close>

definition spawn_many :: "backend \<Rightarrow> int \<Rightarrow> (nat \<Rightarrow> exn + 'a) \<Rightarrow> nat list \<Rightarrow> exn + 'a option list" where
  "spawn_many b count fn sched = snd (spawn_many_run b count fn sched)"

definition spawn_many_trace :: "backend \<Rightarrow> int \<Rightarrow> (nat \<Rightarrow> exn + 'a) \<Rightarrow> nat list \<Rightarrow> 'a event list" where
  "spawn_many_trace b count fn sched = fst (spawn_many_run b count fn sched)"

text \<open>A schedule in which each of the \<open>count\<close> units occurs once.\<close>

definition schedule_of :: "int \<Rightarrow> nat list \<Rightarrow> bool" where
  "schedule_of count sched \<longleftrightarrow> distinct sched \<and> set sched = set (py_range count)"

text \<open>The value a computation returned, if it returned.\<close>

definition value_of :: "exn + 'a \<Rightarrow> 'a option" where
  "value_of x = (case x of Inl e \<Rightarrow> None | Inr v \<Rightarrow> Some v)"

text \<open>How a unit leaves when its own computation ends.\<close>

definition own_outcome :: "exn + 'a \<Rightarrow> 'a outcome" where
  "own_outcome x = (case x of Inl e \<Rightarrow> Raised e | Inr v \<Rightarrow> Returned v)"

subsection \<open>cancellation\_storm\<close>

text \<open>
  A unit of a storm, as far as the storm can tell: \<open>alone\<close> is how \<open>task_fn(i)\<close> ends
  by itself while the caller sleeps \<open>cancel_after\<close> (\<open>None\<close> when it is still suspended
  at that time), and \<open>on_cancel\<close> is how it leaves when the cancellation exception is
  raised at its suspension point: \<open>Cancelled\<close> when it lets the exception pass,
  \<open>Returned v\<close> when it catches it and returns, \<open>Raised e\<close> when it raises something
  else instead. While the caller sleeps, every unit runs until it has left or is
  suspended; \<open>sched\<close> is the order in which the units run.
\<close>

record 'a unit_beh =
  alone :: "(exn + 'a) option"
  on_cancel :: "'a outcome"

text \<open>\<open>isinstance(res, CancelledError)\<close> and \<open>isinstance(res, Exception)\<close>.\<close>

fun is_cancelled :: "'a outcome \<Rightarrow> bool" where
  "is_cancelled Cancelled = True"
| "is_cancelled _ = False"

fun is_exception :: "'a outcome \<Rightarrow> bool" where
  "is_exception (Raised e) = True"
| "is_exception _ = False"

definition storm_result :: "int \<Rightarrow> int \<Rightarrow> real \<Rightarrow> dict" where
  "storm_result c x settle =
     [(''cancelled'', VInt c), (''exceptions'', VInt x), (''settle_s'', VFloat settle)]"

text \<open>The events of the units that leave by themselves, and of those that leave on cancellation.\<close>

definition exits_alone :: "(nat \<Rightarrow> 'a unit_beh) \<Rightarrow> nat list \<Rightarrow> 'a event list" where
  "exits_alone task_fn sched =
     concat (map (\<lambda>i. case alone (task_fn i) of
                        None \<Rightarrow> []
                      | Some r \<Rightarrow> [Exit i (own_outcome r)]) sched)"

definition exits_cancelled :: "(nat \<Rightarrow> 'a unit_beh) \<Rightarrow> nat list \<Rightarrow> 'a event list" where
  "exits_cancelled task_fn sched =
     concat (map (\<lambda>i. case alone (task_fn i) of
                        None \<Rightarrow> [Exit i (on_cancel (task_fn i))]
                      | Some r \<Rightarrow> []) sched)"

text \<open>
  asyncio: \<open>task.cancel()\<close> is called on every task in turn, with no suspension point in
  the loop, and has no effect on a task that is done.
  \<open>gather(*tasks, return_exceptions=True)\<close> waits for all tasks and returns, in the
  order of the tasks, the value of a task that returned and the exception of a task that
  raised or was cancelled.
\<close>

definition asyncio_cancellation_storm ::
  "int \<Rightarrow> (nat \<Rightarrow> 'a unit_beh) \<Rightarrow> nat list \<Rightarrow> real \<Rightarrow> 'a event list \<times> (exn + dict)" where
  "asyncio_cancellation_storm task_count task_fn sched settle =
     (let tasks = py_range task_count;
          results = map (\<lambda>i. case alone (task_fn i) of
                               Some r \<Rightarrow> own_outcome r
                             | None \<Rightarrow> on_cancel (task_fn i)) tasks;
          cancelled = int (length (filter is_cancelled results));
          other_errors =
            int (length (filter (\<lambda>res. is_exception res \<and> \<not> is_cancelled res) results))
      in (map Spawn tasks @ [Suspend] @ exits_alone task_fn sched
            @ map Cancel tasks @ [Suspend] @ exits_cancelled task_fn sched,
          Inr (storm_result cancelled other_errors settle)))"

text \<open>
  trio and anyio: \<open>runner\<close> counts how \<open>task_fn(idx)\<close> left and re-raises.
\<close>

record tally =
  cancelled :: int
  other_errors :: int

fun runner_except :: "'a outcome \<Rightarrow> tally \<Rightarrow> tally" where
  "runner_except (Returned v) t = t"
| "runner_except Cancelled t = t\<lparr>cancelled := cancelled t + 1\<rparr>"
| "runner_except (Raised e) t = t\<lparr>other_errors := other_errors t + 1\<rparr>"

text \<open>
  The units run while the caller sleeps, in the order of the schedule, until one of them
  raises: the result is the events, the exception if there is one, the units that are
  suspended, and the units that had not run when the exception was raised.
\<close>

fun running ::
  "(nat \<Rightarrow> 'a unit_beh) \<Rightarrow> nat list \<Rightarrow> nat list \<Rightarrow> 'a event list \<times> exn option \<times> nat list \<times> nat list" where
  "running task_fn [] blocked = ([], None, blocked, [])"
| "running task_fn (i # sched) blocked =
     (case alone (task_fn i) of
        None \<Rightarrow> running task_fn sched (blocked @ [i])
      | Some (Inr v) \<Rightarrow>
          (let (tr, r) = running task_fn sched blocked in (Exit i (Returned v) # tr, r))
      | Some (Inl e) \<Rightarrow> ([Exit i (Raised e)], Some e, blocked, sched))"

text \<open>
  The units that have not left are cancelled and leave one after the other; each is
  counted by its \<open>runner\<close>, and the exceptions other than the cancellation reach the
  nursery or task group.
\<close>

fun drain ::
  "(nat \<Rightarrow> 'a unit_beh) \<Rightarrow> nat list \<Rightarrow> tally \<Rightarrow> 'a event list \<times> tally \<times> exn list" where
  "drain task_fn [] t = ([], t, [])"
| "drain task_fn (i # units) t =
     (let out = on_cancel (task_fn i);
          (tr, t', errs) = drain task_fn units (runner_except out t)
      in (Exit i out # tr, t', (case out of Raised e \<Rightarrow> [e] | _ \<Rightarrow> []) @ errs))"

text \<open>
  trio: each \<open>runner\<close> appends its cancel scope to \<open>scopes\<close> when it starts, so after
  the sleep the list holds the scopes of the units in the order of the schedule, and the
  loop \<open>for scope in scopes: scope.cancel()\<close> has no suspension point. A scope absorbs
  the cancellation that its own \<open>cancel()\<close> caused. When a unit raises while the caller
  sleeps, the nursery cancels the sleep and the other children: the loop is not reached,
  and the nursery raises. When a unit answers the cancellation with another exception,
  the nursery raises after all have left.
\<close>

definition trio_cancellation_storm ::
  "int \<Rightarrow> (nat \<Rightarrow> 'a unit_beh) \<Rightarrow> nat list \<Rightarrow> real \<Rightarrow> 'a event list \<times> (exn + dict)" where
  "trio_cancellation_storm task_count task_fn sched settle =
     (let start = \<lparr>cancelled = 0, other_errors = 0\<rparr>;
          spawned = map Spawn (py_range task_count);
          (tr1, failure, blocked, waiting) = running task_fn sched []
      in case failure of
           Some e \<Rightarrow>
             (let (tr2, t, errs) = drain task_fn (blocked @ waiting) (runner_except (Raised e :: 'a outcome) start)
              in (spawned @ [Suspend] @ tr1 @ map Abort (blocked @ waiting) @ tr2
                    @ [Surface (ExceptionGroup (e # errs))],
                  Inl (ExceptionGroup (e # errs))))
         | None \<Rightarrow>
             (let scopes = sched;
                  (tr2, t, errs) = drain task_fn blocked start
              in if errs = []
                 then (spawned @ [Suspend] @ tr1 @ map Cancel scopes @ [Suspend] @ tr2,
                       Inr (storm_result (cancelled t) (other_errors t) settle))
                 else (spawned @ [Suspend] @ tr1 @ map Cancel scopes @ [Suspend] @ tr2
                         @ [Surface (ExceptionGroup errs)],
                       Inl (ExceptionGroup errs))))"

text \<open>
  anyio: the same, with one call \<open>tg.cancel_scope.cancel()\<close> that cancels every unit
  still in the task group.
\<close>

definition anyio_cancellation_storm ::
  "int \<Rightarrow> (nat \<Rightarrow> 'a unit_beh) \<Rightarrow> nat list \<Rightarrow> real \<Rightarrow> 'a event list \<times> (exn + dict)" where
  "anyio_cancellation_storm task_count task_fn sched settle =
     (let start = \<lparr>cancelled = 0, other_errors = 0\<rparr>;
          spawned = map Spawn (py_range task_count);
          (tr1, failure, blocked, waiting) = running task_fn sched []
      in case failure of
           Some e \<Rightarrow>
             (let (tr2, t, errs) = drain task_fn (blocked @ waiting) (runner_except (Raised e :: 'a outcome) start)
              in (spawned @ [Suspend] @ tr1 @ map Abort (blocked @ waiting) @ tr2
                    @ [Surface (ExceptionGroup (e # errs))],
                  Inl (ExceptionGroup (e # errs))))
         | None \<Rightarrow>
             (let (tr2, t, errs) = drain task_fn blocked start
              in if errs = []
                 then (spawned @ [Suspend] @ tr1 @ map Cancel blocked @ [Suspend] @ tr2,
                       Inr (storm_result (cancelled t) (other_errors t) settle))
                 else (spawned @ [Suspend] @ tr1 @ map Cancel blocked @ [Suspend] @ tr2
                         @ [Surface (ExceptionGroup errs)],
                       Inl (ExceptionGroup errs))))"

fun cancellation_storm_run ::
  "backend \<Rightarrow> int \<Rightarrow> (nat \<Rightarrow> 'a unit_beh) \<Rightarrow> nat list \<Rightarrow> real \<Rightarrow> 'a event list \<times> (exn + dict)" where
  "cancellation_storm_run AsyncioBackend n task_fn sched settle = asyncio_cancellation_storm n task_fn sched settle"
| "cancellation_storm_run TrioBackend n task_fn sched settle = trio_cancellation_storm n task_fn sched settle"
| "cancellation_storm_run AnyioBackend n task_fn sched settle = anyio_cancellation_storm n task_fn sched settle"

definition cancellation_storm ::
  "backend \<Rightarrow> int \<Rightarrow> (nat \<Rightarrow> 'a unit_beh) \<Rightarrow> nat list \<Rightarrow> real \<Rightarrow> exn + dict" where
  "cancellation_storm b n task_fn sched settle = snd (cancellation_storm_run b n task_fn sched settle)"



text \<open>The cancellation signals of a trace, and the trace from the first signal on.\<close>

fun is_signal :: "'a event \<Rightarrow> bool" where
  "is_signal (Cancel i) = True"
| "is_signal _ = False"

fun is_spawn :: "'a event \<Rightarrow> bool" where
  "is_spawn (Spawn i) = True"
| "is_spawn _ = False"

definition signals :: "'a event list \<Rightarrow> nat list" where
  "signals tr = concat (map (\<lambda>ev. case ev of Cancel i \<Rightarrow> [i] | _ \<Rightarrow> []) tr)"



text \<open>Events that are neither a signal nor a launch.\<close>

definition quiet :: "'a event list \<Rightarrow> bool" where
  "quiet tr \<longleftrightarrow> (\<forall>ev\<in>set tr. \<not> is_signal ev \<and> \<not> is_spawn ev)"




section \<open>benchmarks\<close>

text \<open>The parameter dataclasses with their defaults.\<close>

record TaskSpawnParams =
  task_count :: int
  payload_sleep :: real

definition TaskSpawnParams_default :: TaskSpawnParams where
  "TaskSpawnParams_default = \<lparr>task_count = 20000, payload_sleep = 5 / 10000\<rparr>"

record IOBoundParams =
  concurrency :: int
  ops_per_worker :: int
  mean_delay_ms :: real
  seed :: int

definition IOBoundParams_default :: IOBoundParams where
  "IOBoundParams_default =
     \<lparr>concurrency = 200, ops_per_worker = 200, mean_delay_ms = 5, seed = 1337\<rparr>"

record CancellationParams =
  task_count :: int
  cancel_after_s :: real

definition CancellationParams_default :: CancellationParams where
  "CancellationParams_default = \<lparr>task_count = 5000, cancel_after_s = 5 / 100\<rparr>"

text \<open>
  Dicts and parameter objects are mutable objects with an identity: they live in a heap,
  addressed by position, and a new object is appended. A reference \<open>VRef a\<close> inside a
  dict is the object at address \<open>a\<close>.
\<close>

datatype obj =
    ODict dict
  | OTaskSpawnParams TaskSpawnParams
  | OIOBoundParams IOBoundParams
  | OCancellationParams CancellationParams

type_synonym heap = "obj list"

definition new_obj :: "heap \<Rightarrow> obj \<Rightarrow> heap \<times> addr" where
  "new_obj h x = (h @ [x], length h)"

text \<open>\<open>d[k] = v\<close> and \<open>d.update(other)\<close> on the dict object at an address.\<close>

definition setitem :: "heap \<Rightarrow> addr \<Rightarrow> string \<Rightarrow> val \<Rightarrow> heap" where
  "setitem h a k v = (case h ! a of ODict d \<Rightarrow> h[a := ODict (dict_set d k v)] | _ \<Rightarrow> h)"

definition update :: "heap \<Rightarrow> addr \<Rightarrow> dict \<Rightarrow> heap" where
  "update h a other = (case h ! a of ODict d \<Rightarrow> h[a := ODict (dict_update d other)] | _ \<Rightarrow> h)"

text \<open>\<open>dataclasses.asdict\<close>: a new dict of the fields, in the order of their declaration.\<close>

fun asdict :: "obj \<Rightarrow> exn + dict" where
  "asdict (OTaskSpawnParams p) =
     Inr [(''task_count'', VInt (TaskSpawnParams.task_count p)),
          (''payload_sleep'', VFloat (payload_sleep p))]"
| "asdict (OIOBoundParams p) =
     Inr [(''concurrency'', VInt (concurrency p)), (''ops_per_worker'', VInt (ops_per_worker p)),
          (''mean_delay_ms'', VFloat (mean_delay_ms p)), (''seed'', VInt (seed p))]"
| "asdict (OCancellationParams p) =
     Inr [(''task_count'', VInt (CancellationParams.task_count p)),
          (''cancel_after_s'', VFloat (cancel_after_s p))]"
| "asdict (ODict d) = Inl TypeError"

text \<open>
  What one run of a scenario observes of its environment: \<open>obs_sched\<close> is the order
  in which the runtime lets the spawned units complete (for the I/O scenario
  \<open>obs_steps\<close>, the order in which it resumes the workers), and the other fields are
  the differences of \<open>time.perf_counter()\<close> readings that the code takes:
  \<open>obs_latency i\<close> in unit \<open>i\<close> of the task-spawn scenario, \<open>obs_op_latency w k\<close>
  in call \<open>k\<close> of worker \<open>w\<close>, \<open>obs_elapsed\<close> around \<open>spawn_many\<close>,
  \<open>obs_settle\<close> in the storm, \<open>obs_duration\<close> in \<open>run_cancellation\<close> and
  \<open>obs_wall\<close> around \<open>run_benchmark\<close> in the runner.
\<close>

record observation =
  obs_sched :: "nat list"
  obs_steps :: "nat list"
  obs_latency :: "nat \<Rightarrow> real"
  obs_op_latency :: "nat \<Rightarrow> nat \<Rightarrow> real"
  obs_elapsed :: real
  obs_settle :: real
  obs_duration :: real
  obs_wall :: real

text \<open>\<open>a / b\<close> on numbers raises when \<open>b\<close> is zero.\<close>

definition truediv :: "real \<Rightarrow> real \<Rightarrow> exn + val" where
  "truediv a b = (if b = 0 then Inl ZeroDivisionError else Inr (VFloat (a / b)))"

subsection \<open>task\_spawn.py\<close>

text \<open>
  The dict that \<open>run_task_spawn\<close> returns, for the measured elapsed time and the recorded
  latencies; its values are evaluated in the order of the keys.
\<close>

definition task_spawn_metrics :: "TaskSpawnParams \<Rightarrow> real \<Rightarrow> real list \<Rightarrow> exn + dict" where
  "task_spawn_metrics params elapsed latencies =
     (case (if elapsed \<noteq> 0
            then truediv (real_of_int (TaskSpawnParams.task_count params)) elapsed
            else Inr VInf) of
        Inl e \<Rightarrow> Inl e
      | Inr tasks_per_sec \<Rightarrow>
          (case percentile latencies 50 of
             Inl e \<Rightarrow> Inl e
           | Inr p50 \<Rightarrow>
               (case percentile latencies 95 of
                  Inl e \<Rightarrow> Inl e
                | Inr p95 \<Rightarrow>
                    Inr [(''tasks'', VInt (TaskSpawnParams.task_count params)),
                         (''payload_sleep_s'', VFloat (payload_sleep params)),
                         (''duration_s'', VFloat elapsed),
                         (''tasks_per_sec'', tasks_per_sec),
                         (''latency_p50_ms'', VFloat (p50 * 1000)),
                         (''latency_p95_ms'', VFloat (p95 * 1000))])))"

text \<open>
  \<open>run_task_spawn\<close>: every unit sleeps and appends its latency when it completes, so the
  latencies stand in the order of completion. \<open>params or TaskSpawnParams()\<close> creates the
  default object when no parameters are passed.
\<close>

definition run_task_spawn :: "backend \<Rightarrow> heap \<Rightarrow> addr option \<Rightarrow> observation \<Rightarrow> heap \<times> (exn + addr)" where
  "run_task_spawn backend h params obs =
     (let (h1, params) =
            (case params of
               Some p \<Rightarrow> (h, p)
             | None \<Rightarrow> new_obj h (OTaskSpawnParams TaskSpawnParams_default))
      in case h1 ! params of
           OTaskSpawnParams ps \<Rightarrow>
             (case spawn_many backend (TaskSpawnParams.task_count ps) (\<lambda>i. Inr ()) (obs_sched obs) of
                Inl e \<Rightarrow> (h1, Inl e)
              | Inr results \<Rightarrow>
                  (let latencies = map (obs_latency obs) (obs_sched obs)
                   in case task_spawn_metrics ps (obs_elapsed obs) latencies of
                        Inl e \<Rightarrow> (h1, Inl e)
                      | Inr d \<Rightarrow> (let (h2, a) = new_obj h1 (ODict d) in (h2, Inr a))))
         | _ \<Rightarrow> (h1, Inl AttributeError))"

subsection \<open>io\_bound.py\<close>

text \<open>
  The pseudo-random generator of \<open>random.Random\<close> is a parameter: \<open>seeded s\<close> is the
  state of \<open>Random(s)\<close>, and \<open>expovariate g lambd\<close> is the result of
  \<open>expovariate(lambd)\<close> in state \<open>g\<close> with the state it leaves.
\<close>

record 'g prng =
  seeded :: "int \<Rightarrow> 'g"
  expovariate :: "'g \<Rightarrow> real \<Rightarrow> real \<times> 'g"

text \<open>
  A worker is not started, suspended in the sleep of its call number \<open>k\<close>, or finished.
  The state of a run: the generator, the workers, the delays in the order in which they
  were drawn, the recorded latencies, and the workers in the order in which they finished.
\<close>

datatype wstate = NotStarted | Sleeping nat | Finished "exn + unit"

record 'g io_state =
  st_rng :: 'g
  st_workers :: "nat \<Rightarrow> wstate"
  st_delays :: "real list"
  st_op_latencies :: "real list"
  st_completed :: "nat list"

definition finish :: "nat \<Rightarrow> exn + unit \<Rightarrow> 'g io_state \<Rightarrow> 'g io_state" where
  "finish w r st = st\<lparr>st_workers := (st_workers st)(w := Finished r), st_completed := st_completed st @ [w]\<rparr>"

text \<open>
  The body of the worker's loop up to its \<open>await\<close>:
  \<open>delay = rng.expovariate(1 / params.mean_delay_ms) / 1000\<close>, then the sleep.
\<close>

definition begin_op :: "IOBoundParams \<Rightarrow> 'g prng \<Rightarrow> nat \<Rightarrow> nat \<Rightarrow> 'g io_state \<Rightarrow> 'g io_state" where
  "begin_op params gen w k st =
     (if mean_delay_ms params = 0 then finish w (Inl ZeroDivisionError) st
      else
        (let (x, g') = expovariate gen (st_rng st) (1 / mean_delay_ms params)
         in st\<lparr>st_rng := g', st_delays := st_delays st @ [x / 1000],
                st_workers := (st_workers st)(w := Sleeping k)\<rparr>))"

text \<open>
  The runtime resumes worker \<open>w\<close>: a new worker enters its loop; a sleeping worker
  appends the latency of the call it was in and goes on to the next call, or ends.
\<close>

definition resume :: "IOBoundParams \<Rightarrow> 'g prng \<Rightarrow> observation \<Rightarrow> nat \<Rightarrow> 'g io_state \<Rightarrow> 'g io_state" where
  "resume params gen obs w st =
     (if \<not> w < nat (concurrency params) then st
      else case st_workers st w of
             NotStarted \<Rightarrow>
               (if 0 < ops_per_worker params then begin_op params gen w 0 st
                else finish w (Inr ()) st)
           | Sleeping k \<Rightarrow>
               (let st1 = st\<lparr>st_op_latencies := st_op_latencies st @ [obs_op_latency obs w k]\<rparr>
                in if int (k + 1) < ops_per_worker params then begin_op params gen w (k + 1) st1
                   else finish w (Inr ()) st1)
           | Finished r \<Rightarrow> st)"

definition io_bound_workers :: "IOBoundParams \<Rightarrow> 'g prng \<Rightarrow> observation \<Rightarrow> 'g io_state" where
  "io_bound_workers params gen obs =
     fold (resume params gen obs) (obs_steps obs)
       \<lparr>st_rng = seeded gen (seed params), st_workers = (\<lambda>w. NotStarted), st_delays = [],
        st_op_latencies = [], st_completed = []\<rparr>"

definition io_bound_metrics :: "IOBoundParams \<Rightarrow> real \<Rightarrow> real list \<Rightarrow> exn + dict" where
  "io_bound_metrics params elapsed op_latencies =
     (let total_ops = concurrency params * ops_per_worker params
      in case (if elapsed \<noteq> 0 then truediv (real_of_int total_ops) elapsed else Inr VInf) of
           Inl e \<Rightarrow> Inl e
         | Inr ops_per_sec \<Rightarrow>
             (case percentile op_latencies 95 of
                Inl e \<Rightarrow> Inl e
              | Inr p95 \<Rightarrow>
                  (case percentile op_latencies 99 of
                     Inl e \<Rightarrow> Inl e
                   | Inr p99 \<Rightarrow>
                       Inr [(''workers'', VInt (concurrency params)),
                            (''ops_per_worker'', VInt (ops_per_worker params)),
                            (''mean_delay_ms'', VFloat (mean_delay_ms params)),
                            (''duration_s'', VFloat elapsed),
                            (''ops'', VInt total_ops),
                            (''ops_per_sec'', ops_per_sec),
                            (''latency_mean_ms'', VFloat (mean op_latencies * 1000)),
                            (''latency_p95_ms'', VFloat (p95 * 1000)),
                            (''latency_p99_ms'', VFloat (p99 * 1000))])))"

text \<open>
  \<open>run_io_bound\<close>: \<open>spawn_many\<close> sees each worker end with its result, in the order in
  which the workers finished.
\<close>

definition run_io_bound ::
  "backend \<Rightarrow> heap \<Rightarrow> addr option \<Rightarrow> 'g prng \<Rightarrow> observation \<Rightarrow> heap \<times> (exn + addr)" where
  "run_io_bound backend h params gen obs =
     (let (h1, params) =
            (case params of
               Some p \<Rightarrow> (h, p)
             | None \<Rightarrow> new_obj h (OIOBoundParams IOBoundParams_default))
      in case h1 ! params of
           OIOBoundParams ps \<Rightarrow>
             (let st = io_bound_workers ps gen obs;
                  worker = (\<lambda>i. case st_workers st i of Finished r \<Rightarrow> r | _ \<Rightarrow> Inr ())
              in case spawn_many backend (concurrency ps) worker (st_completed st) of
                   Inl e \<Rightarrow> (h1, Inl e)
                 | Inr results \<Rightarrow>
                     (case io_bound_metrics ps (obs_elapsed obs) (st_op_latencies st) of
                        Inl e \<Rightarrow> (h1, Inl e)
                      | Inr d \<Rightarrow> (let (h2, a) = new_obj h1 (ODict d) in (h2, Inr a))))
         | _ \<Rightarrow> (h1, Inl AttributeError))"

text \<open>The delays that a run of the I/O scenario draws, in the order of the draws.\<close>

definition io_bound_delays :: "IOBoundParams \<Rightarrow> 'g prng \<Rightarrow> observation \<Rightarrow> real list" where
  "io_bound_delays params gen obs = st_delays (io_bound_workers params gen obs)"

text \<open>A run in which every worker has finished.\<close>

definition all_finished :: "IOBoundParams \<Rightarrow> 'g prng \<Rightarrow> observation \<Rightarrow> bool" where
  "all_finished params gen obs \<longleftrightarrow>
     list_all (\<lambda>w. case st_workers (io_bound_workers params gen obs) w of
                     Finished r \<Rightarrow> True | _ \<Rightarrow> False)
       (py_range (concurrency params))"

text \<open>
  The first \<open>n\<close> delays that the seeded generator yields for the parameters, whoever
  draws them.
\<close>

fun delay_stream :: "'g prng \<Rightarrow> real \<Rightarrow> 'g \<Rightarrow> nat \<Rightarrow> real list" where
  "delay_stream gen lambd g 0 = []"
| "delay_stream gen lambd g (Suc n) =
     (let (x, g') = expovariate gen g lambd in (x / 1000) # delay_stream gen lambd g' n)"

subsection \<open>cancellation.py\<close>

text \<open>
  \<open>_long_task\<close> sleeps in an endless loop and catches nothing: it never ends by itself,
  and the cancellation raised in its sleep passes through it.
\<close>

definition long_task :: "backend \<Rightarrow> nat \<Rightarrow> unit unit_beh" where
  "long_task backend i = \<lparr>alone = None, on_cancel = Cancelled\<rparr>"

text \<open>The dict that \<open>cancellation_storm\<close> returns is a new object.\<close>

definition cancellation_storm_obj ::
  "backend \<Rightarrow> heap \<Rightarrow> int \<Rightarrow> (nat \<Rightarrow> 'a unit_beh) \<Rightarrow> nat list \<Rightarrow> real \<Rightarrow> heap \<times> (exn + addr)" where
  "cancellation_storm_obj backend h n task_fn sched settle =
     (case cancellation_storm backend n task_fn sched settle of
        Inl e \<Rightarrow> (h, Inl e)
      | Inr d \<Rightarrow> (let (h1, a) = new_obj h (ODict d) in (h1, Inr a)))"

definition run_cancellation :: "backend \<Rightarrow> heap \<Rightarrow> addr option \<Rightarrow> observation \<Rightarrow> heap \<times> (exn + addr)" where
  "run_cancellation backend h params obs =
     (let (h1, params) =
            (case params of
               Some p \<Rightarrow> (h, p)
             | None \<Rightarrow> new_obj h (OCancellationParams CancellationParams_default))
      in case h1 ! params of
           OCancellationParams ps \<Rightarrow>
             (case cancellation_storm_obj backend h1 (CancellationParams.task_count ps)
                     (\<lambda>i. long_task backend i) (obs_sched obs) (obs_settle obs) of
                (h2, Inl e) \<Rightarrow> (h2, Inl e)
              | (h2, Inr result) \<Rightarrow>
                  (update h2 result
                     [(''tasks'', VInt (CancellationParams.task_count ps)),
                      (''cancel_after_s'', VFloat (cancel_after_s ps)),
                      (''duration_s'', VFloat (obs_duration obs))],
                   Inr result))
         | _ \<Rightarrow> (h1, Inl AttributeError))"

section \<open>runner.py\<close>

text \<open>
  The \<open>fn\<close> entries of \<open>SCENARIOS\<close>, and \<open>fn(b, params)\<close>. The reading of the clock
  and the order of completion are the observation of the run; the generator is the one
  that \<open>random.Random\<close> provides.
\<close>

datatype scenario_fn = FnTaskSpawn | FnIOBound | FnCancellation

definition SCENARIOS :: "string \<rightharpoonup> scenario_fn" where
  "SCENARIOS = [''task_spawn'' \<mapsto> FnTaskSpawn, ''io_bound'' \<mapsto> FnIOBound,
                ''cancellation'' \<mapsto> FnCancellation]"

fun call_fn ::
  "scenario_fn \<Rightarrow> 'g prng \<Rightarrow> observation \<Rightarrow> backend \<Rightarrow> heap \<Rightarrow> addr \<Rightarrow> heap \<times> (exn + addr)" where
  "call_fn FnTaskSpawn gen obs b h params = run_task_spawn b h (Some params) obs"
| "call_fn FnIOBound gen obs b h params = run_io_bound b h (Some params) gen obs"
| "call_fn FnCancellation gen obs b h params = run_cancellation b h (Some params) obs"

text \<open>
  \<open>backend.run(scenario)\<close>: \<open>asyncio.run\<close>, \<open>trio.run\<close> and \<open>anyio.run\<close> run the
  scenario to its end and return its result or raise its exception.
\<close>

definition run :: "backend \<Rightarrow> (backend \<Rightarrow> 'r) \<Rightarrow> 'r" where
  "run backend scenario = scenario backend"

text \<open>The parsed command line, without the output path.\<close>

record Namespace =
  benchmarks :: "string list"
  libraries :: "string list"
  repetitions :: int
  task_count :: int
  payload_sleep :: real
  concurrency :: int
  ops_per_worker :: int
  mean_io_ms :: real
  io_seed :: int
  cancel_tasks :: int
  cancel_after :: real

definition build_params :: "Namespace \<Rightarrow> heap \<Rightarrow> heap \<times> (string \<times> addr) list" where
  "build_params args h =
     (let (h1, a1) = new_obj h (OTaskSpawnParams
            \<lparr>TaskSpawnParams.task_count = Namespace.task_count args,
             TaskSpawnParams.payload_sleep = Namespace.payload_sleep args\<rparr>);
          (h2, a2) = new_obj h1 (OIOBoundParams
            \<lparr>IOBoundParams.concurrency = Namespace.concurrency args,
             IOBoundParams.ops_per_worker = Namespace.ops_per_worker args,
             mean_delay_ms = mean_io_ms args, seed = io_seed args\<rparr>);
          (h3, a3) = new_obj h2 (OCancellationParams
            \<lparr>CancellationParams.task_count = cancel_tasks args,
             cancel_after_s = cancel_after args\<rparr>)
      in (h3, [(''task_spawn'', a1), (''io_bound'', a2), (''cancellation'', a3)]))"

text \<open>
  \<open>run_benchmark\<close>: the entry is a new dict; its \<open>params\<close> is the new dict that
  \<open>asdict\<close> makes, and its \<open>metrics\<close> is the object that the scenario returned.
\<close>

definition run_benchmark ::
  "'g prng \<Rightarrow> observation \<Rightarrow> heap \<Rightarrow> backend \<Rightarrow> string \<Rightarrow> scenario_fn \<Rightarrow> addr \<Rightarrow> heap \<times> (exn + addr)" where
  "run_benchmark gen obs h backend nm fn params =
     (case run backend (\<lambda>b. call_fn fn gen obs b h params) of
        (h1, Inl e) \<Rightarrow> (h1, Inl e)
      | (h1, Inr result) \<Rightarrow>
          (case asdict (h1 ! params) of
             Inl e \<Rightarrow> (h1, Inl e)
           | Inr snapshot \<Rightarrow>
               (let (h2, pa) = new_obj h1 (ODict snapshot);
                    (h3, entry) = new_obj h2 (ODict
                       [(''library'', VStr (name backend)), (''scenario'', VStr nm),
                        (''params'', VRef pa), (''metrics'', VRef result)])
                in (h3, Inr entry))))"

text \<open>A \<open>for\<close> loop over a list that an exception leaves.\<close>

fun for_each :: "'x list \<Rightarrow> ('x \<Rightarrow> 's \<Rightarrow> exn + 's) \<Rightarrow> 's \<Rightarrow> exn + 's" where
  "for_each [] body s = Inr s"
| "for_each (x # xs) body s = (case body x s of Inl e \<Rightarrow> Inl e | Inr s' \<Rightarrow> for_each xs body s')"

text \<open>
  The body of the innermost loop of \<open>main\<close>, on the heap and the list \<open>entries\<close>. The
  runs are sequential; \<open>obs k\<close> is the observation of the run after \<open>k\<close> completed ones.
\<close>

definition repetition ::
  "'g prng \<Rightarrow> (nat \<Rightarrow> observation) \<Rightarrow> backend \<Rightarrow> string \<Rightarrow> scenario_fn \<Rightarrow> (string \<times> addr) list
     \<Rightarrow> nat \<Rightarrow> heap \<times> addr list \<Rightarrow> exn + heap \<times> addr list" where
  "repetition gen obs backend scenario_name fn params rep s =
     (let (h, entries) = s in
      case map_of params scenario_name of
        None \<Rightarrow> Inl KeyError
      | Some p \<Rightarrow>
          (case run_benchmark gen (obs (length entries)) h backend scenario_name fn p of
             (h1, Inl e) \<Rightarrow> Inl e
           | (h1, Inr entry) \<Rightarrow>
               (let h2 = setitem h1 entry ''rep'' (VInt (int rep + 1));
                    h3 = setitem h2 entry ''duration_s'' (VFloat (obs_wall (obs (length entries))))
                in Inr (h3, entries @ [entry]))))"

text \<open>
  \<open>main\<close> up to the result document: the heap it leaves and the entries of
  \<open>results\<close>. Writing the document to the output path is not modelled.
\<close>

definition main ::
  "Namespace \<Rightarrow> 'g prng \<Rightarrow> (nat \<Rightarrow> observation) \<Rightarrow> heap \<Rightarrow> exn + heap \<times> addr list" where
  "main args gen obs h =
     (let (h0, params) = build_params args h in
      for_each (libraries args)
        (\<lambda>lib s.
           case BACKENDS lib of
             None \<Rightarrow> Inl KeyError
           | Some backend \<Rightarrow>
               for_each (benchmarks args)
                 (\<lambda>scenario_name s.
                    case SCENARIOS scenario_name of
                      None \<Rightarrow> Inl KeyError
                    | Some fn \<Rightarrow>
                        for_each (py_range (repetitions args))
                          (repetition gen obs backend scenario_name fn params) s) s)
        (h0, []))"










text \<open>A sample generator, observation and command line.\<close>

definition sample_gen :: "int prng" where
  "sample_gen =
     \<lparr>seeded = (\<lambda>s. s), expovariate = (\<lambda>g lambd. (real_of_int (g mod 7 + 1) / lambd, g + 1))\<rparr>"

definition sample_obs :: observation where
  "sample_obs = \<lparr>obs_sched = [1, 0], obs_steps = [0, 1, 1, 0, 0, 1],
     obs_latency = (\<lambda>i. 1 / 1000), obs_op_latency = (\<lambda>w k. 1 / 100), obs_elapsed = 1 / 10,
     obs_settle = 1 / 100, obs_duration = 2 / 10, obs_wall = 3 / 10\<rparr>"

definition sample_args :: Namespace where
  "sample_args = \<lparr>benchmarks = [''cancellation''], libraries = [''trio''], repetitions = 3,
     task_count = 2, payload_sleep = 1 / 1000, concurrency = 2, ops_per_worker = 2,
     mean_io_ms = 5, io_seed = 1337, cancel_tasks = 2, cancel_after = 1 / 20\<rparr>"

definition sample_run :: "nat \<Rightarrow> observation" where
  "sample_run k = sample_obs"

definition sample_heap :: heap where
  "sample_heap = [OCancellationParams \<lparr>CancellationParams.task_count = 2, cancel_after_s = 1 / 20\<rparr>]"

text \<open>The heap that a loop leaves, empty when it raised.\<close>

definition heap_of :: "exn + heap \<times> addr list \<Rightarrow> heap" where
  "heap_of r = (case r of Inl e \<Rightarrow> [] | Inr (h, entries) \<Rightarrow> h)"

text \<open>The state of the generator after \<open>n\<close> draws.\<close>

fun rng_after :: "'g prng \<Rightarrow> real \<Rightarrow> 'g \<Rightarrow> nat \<Rightarrow> 'g" where
  "rng_after gen lambd g 0 = g"
| "rng_after gen lambd g (Suc n) = rng_after gen lambd (snd (expovariate gen g lambd)) n"

text \<open>
  The number of delays a worker has drawn, by its state, when a worker that ends normally
  has made \<open>m\<close> calls; and the number over all workers.
\<close>

fun drawn :: "nat \<Rightarrow> wstate \<Rightarrow> nat" where
  "drawn m NotStarted = 0"
| "drawn m (Sleeping j) = Suc j"
| "drawn m (Finished (Inr u)) = m"
| "drawn m (Finished (Inl e)) = 0"

definition total_drawn :: "IOBoundParams \<Rightarrow> 'g io_state \<Rightarrow> nat" where
  "total_drawn ps st =
     (\<Sum>w<nat (IOBoundParams.concurrency ps).
        drawn (nat (IOBoundParams.ops_per_worker ps)) (st_workers st w))"

text \<open>
  What every state of a run satisfies: the delays drawn so far are the first delays of
  the seeded generator, as many as the workers have drawn together.
\<close>

definition io_inv :: "IOBoundParams \<Rightarrow> 'g prng \<Rightarrow> 'g io_state \<Rightarrow> bool" where
  "io_inv ps gen st \<longleftrightarrow>
     st_delays st
       = delay_stream gen (1 / mean_delay_ms ps) (seeded gen (seed ps)) (total_drawn ps st)
     \<and> st_rng st = rng_after gen (1 / mean_delay_ms ps) (seeded gen (seed ps)) (total_drawn ps st)
     \<and> (\<forall>w j. st_workers st w = Sleeping j \<longrightarrow>
            Suc j \<le> nat (IOBoundParams.ops_per_worker ps) \<and> mean_delay_ms ps \<noteq> 0)
     \<and> (\<forall>w e. st_workers st w = Finished (Inl e) \<longrightarrow> mean_delay_ms ps = 0)
     \<and> (\<forall>w u. st_workers st w = Finished (Inr u) \<longrightarrow>
            mean_delay_ms ps \<noteq> 0 \<or> nat (IOBoundParams.ops_per_worker ps) = 0)"

text \<open>Sample parameters of the I/O scenario, and a second observation.\<close>

definition sample_io :: IOBoundParams where
  "sample_io = \<lparr>IOBoundParams.concurrency = 2, IOBoundParams.ops_per_worker = 2,
     mean_delay_ms = 5, seed = 7\<rparr>"

definition sample_obs2 :: observation where
  "sample_obs2 = \<lparr>obs_sched = [0, 1], obs_steps = [1, 1, 0, 1, 0, 0],
     obs_latency = (\<lambda>i. 2 / 1000), obs_op_latency = (\<lambda>w k. 3 / 100), obs_elapsed = 2 / 10,
     obs_settle = 2 / 100, obs_duration = 4 / 10, obs_wall = 5 / 10\<rparr>"

section \<open>Statistics\<close>

lemma percentile_unfold:
  "percentile values pct =
     (if values = [] then Inr 0
      else
        let vals = sort values;
            k = (real (length vals) - 1) * (pct / 100);
            f = py_int k;
            c = min (f + 1) (int (length vals) - 1)
        in if f = c then getitem vals f
           else
             (case getitem vals f of
                Inl e \<Rightarrow> Inl e
              | Inr vf \<Rightarrow>
                  (case getitem vals c of
                     Inl e \<Rightarrow> Inl e
                   | Inr vc \<Rightarrow>
                       Inr (vf * (real_of_int c - k) + vc * (k - real_of_int f)))))"
  by (simp add: percentile_def percentile_st_def new_list_def sort_in_place_def Let_def
      cong: sum.case_cong)

lemma mean_unfold:
  "mean values = (if values \<noteq> [] then sum_list values / real (length values) else 0)"
  by (simp add: mean_def mean_st_def new_list_def)

lemma getitem_in_range:
  "0 \<le> i \<Longrightarrow> i < int (length xs) \<Longrightarrow> getitem xs i = Inr (xs ! nat i)"
  by (simp add: getitem_def)

lemma order_statistic_in_range:
  "0 \<le> i \<Longrightarrow> i < int (length xs) \<Longrightarrow> order_statistic xs i = Some (sort xs ! nat i)"
  by (simp add: order_statistic_def)

lemma rank_bounds:
  assumes "values \<noteq> []" "0 \<le> pct" "pct \<le> 100"
  defines "k \<equiv> (real (length values) - 1) * (pct / 100)"
  shows "0 \<le> k" and "k \<le> real (length values) - 1"
proof -
  have n: "0 \<le> real (length values) - 1"
    using assms(1) by (cases "values") simp_all
  have p0: "0 \<le> pct / 100" using assms(2) by simp
  have p1: "pct / 100 \<le> 1" using assms(3) by simp
  show "0 \<le> k" unfolding k_def using n p0 by (rule mult_nonneg_nonneg)
  have "(real (length values) - 1) * (pct / 100) \<le> (real (length values) - 1) * 1"
    using p1 n by (rule mult_left_mono)
  then show "k \<le> real (length values) - 1" unfolding k_def by simp
qed

lemma percentile_matches_reference:
  assumes ne: "values \<noteq> []" and p0: "0 \<le> pct" and p1: "pct \<le> 100"
  shows "\<exists>r. percentile values pct = Inr r \<and> linear_reference values pct = Some r"
proof -
  define n where "n = int (length values)"
  define k where "k = (real (length values) - 1) * (pct / 100)"
  define f where "f = py_int k"
  define s where "s = sort values"
  have pe: "percentile values pct =
      (if f = min (f + 1) (n - 1) then getitem s f
       else (case getitem s f of
               Inl e \<Rightarrow> Inl e
             | Inr vf \<Rightarrow>
                 (case getitem s (min (f + 1) (n - 1)) of
                    Inl e \<Rightarrow> Inl e
                  | Inr vc \<Rightarrow>
                      Inr (vf * (real_of_int (min (f + 1) (n - 1)) - k)
                           + vc * (k - real_of_int f)))))"
    using ne
    by (simp add: percentile_unfold Let_def f_def k_def s_def n_def cong: sum.case_cong)
  have k0: "0 \<le> k" and kn: "k \<le> real (length values) - 1"
    unfolding k_def using rank_bounds[OF ne p0 p1] by simp_all
  have kn': "k \<le> real_of_int (n - 1)" using kn by (simp add: n_def)
  have ff: "f = \<lfloor>k\<rfloor>" by (simp add: py_int_def f_def k0)
  have f0: "0 \<le> f" unfolding ff using k0 by simp
  have "\<lfloor>k\<rfloor> \<le> \<lfloor>real_of_int (n - 1)\<rfloor>" using kn' by (rule floor_mono)
  then have fn: "f \<le> n - 1" unfolding ff by simp
  have ceil_n: "\<lceil>k\<rceil> \<le> n - 1" using kn' by (simp only: ceiling_le_iff)
  have ceil_0: "0 \<le> \<lceil>k\<rceil>" using k0 by (simp add: le_ceiling_iff)
  have len_s: "int (length s) = n" by (simp add: s_def n_def)
  have kref: "(real (length values) - 1) * pct / 100 = k" by (simp add: k_def)
  have lo: "order_statistic values f = Some (s ! nat f)"
    using f0 fn by (simp add: order_statistic_in_range n_def s_def)
  have hi: "order_statistic values \<lceil>k\<rceil> = Some (s ! nat \<lceil>k\<rceil>)"
    using ceil_0 ceil_n by (simp add: order_statistic_in_range n_def s_def)
  have ref: "linear_reference values pct
      = Some (s ! nat f + (s ! nat \<lceil>k\<rceil> - s ! nat f) * (k - real_of_int f))"
    unfolding linear_reference_def kref Let_def using lo hi by (simp add: ff)
  have gf: "getitem s f = Inr (s ! nat f)"
    using f0 fn len_s by (simp add: getitem_in_range)
  show ?thesis
  proof (cases "f = n - 1")
    case True
    then have "k = real_of_int f" using kn' ff by linarith
    then have "\<lceil>k\<rceil> = f" by simp
    moreover have "percentile values pct = Inr (s ! nat f)"
      unfolding pe using True gf by simp
    ultimately show ?thesis using ref by simp
  next
    case False
    then have lt: "f + 1 \<le> n - 1" using fn by simp
    then have m: "min (f + 1) (n - 1) = f + 1" by simp
    have gc: "getitem s (f + 1) = Inr (s ! nat (f + 1))"
      using f0 lt len_s by (simp add: getitem_in_range)
    have pc: "percentile values pct
        = Inr (s ! nat f * (real_of_int (f + 1) - k) + s ! nat (f + 1) * (k - real_of_int f))"
      unfolding pe m using gf gc by simp
    show ?thesis
    proof (cases "k = real_of_int f")
      case True
      then have "\<lceil>k\<rceil> = f" by simp
      then show ?thesis using ref pc True by simp
    next
      case False
      then have c: "\<lceil>k\<rceil> = f + 1" unfolding ff
        by (metis ceiling_altdef of_int_floor_cancel)
      have "s ! nat f * (real_of_int (f + 1) - k) + s ! nat (f + 1) * (k - real_of_int f)
          = s ! nat f + (s ! nat (f + 1) - s ! nat f) * (k - real_of_int f)"
        by (simp add: algebra_simps)
      then show ?thesis using ref pc unfolding c by simp
    qed
  qed
qed

text \<open>
  Claim C5. \<open>percentile\<close> returns 0.0 for empty input; for a non-empty sample and a
  percentage \<open>pct\<close> between 0 and 100 it returns normally, and its value is the
  linear-interpolation reference (sort, rank \<open>k = (n - 1) * pct / 100\<close>, interpolate
  between the order statistics at \<open>floor k\<close> and \<open>ceil k\<close>);
  \<open>percentile([1, 2, 3, 4], 50) = 2.5\<close> and \<open>mean([]) = 0.0\<close>. Outside 0..100 the
  reference has no order statistic to interpolate between.
\<close>

theorem percentile_linear_interpolation:
  "percentile [] pct = Inr 0
   \<and> (vs \<noteq> [] \<longrightarrow> 0 \<le> pct \<longrightarrow> pct \<le> 100 \<longrightarrow>
        (\<exists>r. percentile vs pct = Inr r \<and> linear_reference vs pct = Some r))
   \<and> percentile [1, 2, 3, 4] 50 = Inr (5 / 2)
   \<and> mean [] = 0"
proof -
  have a: "percentile [] pct = Inr 0" by (simp add: percentile_unfold)
  have b: "percentile [1, 2, 3, 4] 50 = Inr (5 / 2)"
    by (simp add: percentile_unfold Let_def py_int_def getitem_def)
  have c: "mean [] = 0" by (simp add: mean_unfold)
  show ?thesis using a b c percentile_matches_reference by blast
qed

theorem percentile_linear_interpolation_witness:
  "[3, 1, 2] \<noteq> ([] :: real list) \<and> (0::real) \<le> 25 \<and> (25::real) \<le> 100
   \<and> percentile [3, 1, 2] 25 = Inr (3 / 2) \<and> linear_reference [3, 1, 2] 25 = Some (3 / 2)"
proof -
  have p: "percentile [3, 1, 2] 25 = Inr (3 / 2)"
    by (simp add: percentile_unfold Let_def py_int_def getitem_def)
  show ?thesis using percentile_linear_interpolation [of 25 "[3, 1, 2]"] p by auto
qed

lemma percentile_st_store:
  "fst (percentile_st h a pct) =
     (if h ! a = [] then h @ [h ! a] else h @ [sort (h ! a)])"
  by (simp add: percentile_st_def new_list_def sort_in_place_def Let_def)

lemma mean_st_store: "fst (mean_st h a) = h @ [h ! a]"
  by (simp add: mean_st_def new_list_def)

text \<open>
  Claim C10. \<open>percentile\<close> and \<open>mean\<close> never mutate their input: after the call
  the caller's list object holds the same elements in the same order, and so does every
  other object that was live before the call (\<open>percentile\<close> sorts the new object
  that \<open>list(values)\<close> created).
\<close>

theorem percentile_mean_keep_input:
  "a < length h \<Longrightarrow>
     fst (percentile_st h a pct) ! a = h ! a \<and> fst (mean_st h a) ! a = h ! a
     \<and> take (length h) (fst (percentile_st h a pct)) = h
     \<and> take (length h) (fst (mean_st h a)) = h"
  by (simp add: percentile_st_store mean_st_store nth_append)

theorem percentile_mean_keep_input_witness:
  "(0::nat) < length [[3, 1, 2 :: real]]
   \<and> fst (percentile_st [[3, 1, 2]] 0 50) = [[3, 1, 2], [1, 2, 3]]
   \<and> fst (percentile_st [[3, 1, 2]] 0 50) ! 0 = [3, 1, 2]
   \<and> fst (mean_st [[3, 1, 2]] 0) ! 0 = [3, 1, 2]"
  using percentile_mean_keep_input [of 0 "[[3, 1, 2]]" 50]
  by (simp add: percentile_st_store)

section \<open>Backends: spawn\_many\<close>

lemma gather_step:
  "fn i = Inr v \<Longrightarrow> snd (gather fn (i # sched) fin) = snd (gather fn sched (fin(i \<mapsto> v)))"
  by (simp add: case_prod_beta)

lemma gather_fail:
  "fn i = Inl e \<Longrightarrow> snd (gather fn (i # sched) fin) = Inl e"
  by simp

lemma gather_returns:
  "snd (gather fn sched fin) = Inr fin' \<longleftrightarrow>
     (\<forall>i\<in>set sched. \<exists>v. fn i = Inr v)
     \<and> fin' = (\<lambda>i. if i \<in> set sched then value_of (fn i) else fin i)"
proof (induction sched arbitrary: fin)
  case Nil
  show ?case by auto
next
  case (Cons i sched)
  show ?case
  proof (cases "fn i")
    case (Inl e)
    show ?thesis using gather_fail[of fn i e sched fin] Inl by auto
  next
    case (Inr v)
    have eq: "(\<lambda>j. if j \<in> set sched then value_of (fn j) else (fin(i \<mapsto> v)) j)
        = (\<lambda>j. if j \<in> set (i # sched) then value_of (fn j) else fin j)"
      using Inr by (auto simp: value_of_def fun_eq_iff)
    have all: "(\<forall>j\<in>set (i # sched). \<exists>v. fn j = Inr v) \<longleftrightarrow> (\<forall>j\<in>set sched. \<exists>v. fn j = Inr v)"
      using Inr by simp
    show ?thesis
      unfolding gather_step[of fn i v sched fin, OF Inr] Cons.IH[of "fin(i \<mapsto> v)"] eq all ..
  qed
qed

lemma task_group_step:
  "fn i = Inr v \<Longrightarrow>
     snd (task_group fn (i # sched) rs) = snd (task_group fn sched (rs[i := Some v]))"
  by (simp add: case_prod_beta)

lemma task_group_fail:
  "fn i = Inl e \<Longrightarrow> snd (task_group fn (i # sched) rs) = Inl (ExceptionGroup [e])"
  by simp

lemma task_group_returns:
  "snd (task_group fn sched rs) = Inr rs' \<longleftrightarrow>
     (\<forall>i\<in>set sched. \<exists>v. fn i = Inr v)
     \<and> rs' = fold (\<lambda>i r. r[i := value_of (fn i)]) sched rs"
proof (induction sched arbitrary: rs)
  case Nil
  show ?case by auto
next
  case (Cons i sched)
  show ?case
  proof (cases "fn i")
    case (Inl e)
    show ?thesis using task_group_fail[of fn i e sched rs] Inl by auto
  next
    case (Inr v)
    have all: "(\<forall>j\<in>set (i # sched). \<exists>v. fn j = Inr v) \<longleftrightarrow> (\<forall>j\<in>set sched. \<exists>v. fn j = Inr v)"
      using Inr by simp
    have f: "fold (\<lambda>i r. r[i := value_of (fn i)]) (i # sched) rs
        = fold (\<lambda>i r. r[i := value_of (fn i)]) sched (rs[i := Some v])"
      using Inr by (simp add: value_of_def)
    show ?thesis
      unfolding task_group_step[of fn i v sched rs, OF Inr] Cons.IH[of "rs[i := Some v]"] all f ..
  qed
qed

lemma length_fold_store [simp]:
  "length (fold (\<lambda>i r. r[i := g i]) sched rs) = length rs"
  by (induction sched arbitrary: rs) auto

lemma nth_fold_store:
  "i < length rs \<Longrightarrow>
     fold (\<lambda>i r. r[i := g i]) sched rs ! i = (if i \<in> set sched then g i else rs ! i)"
  by (induction sched arbitrary: rs) (auto simp: nth_list_update)

lemma map_upt_eq_iff:
  "length xs = n \<Longrightarrow> (xs = map g [0..<n]) \<longleftrightarrow> (\<forall>i<n. xs ! i = g i)"
  by (auto simp: list_eq_iff_nth_eq)

lemma asyncio_spawn_many_returns:
  assumes "schedule_of count sched"
  shows "snd (asyncio_spawn_many count fn sched) = Inr results \<longleftrightarrow>
     (\<forall>i < nat count. \<exists>v. fn i = Inr v)
     \<and> results = map (\<lambda>i. value_of (fn i)) (py_range count)"
proof -
  have s: "set sched = {0..<nat count}"
    using assms by (auto simp: schedule_of_def py_range_def)
  obtain tr r where g: "gather fn sched Map.empty = (tr, r)" by (cases "gather fn sched Map.empty")
  then have r: "snd (gather fn sched Map.empty) = r" by simp
  show ?thesis
  proof (cases r)
    case (Inl e)
    then have "\<not> (\<forall>i\<in>set sched. \<exists>v. fn i = Inr v)"
      using gather_returns[of fn sched Map.empty] r by auto
    then show ?thesis using Inl g s by (auto simp: asyncio_spawn_many_def Let_def)
  next
    case (Inr fin)
    then have ok: "\<forall>i\<in>set sched. \<exists>v. fn i = Inr v"
      and fin: "fin = (\<lambda>i. if i \<in> set sched then value_of (fn i) else None)"
      using gather_returns[of fn sched Map.empty fin] r by auto
    have "map fin (py_range count) = map (\<lambda>i. value_of (fn i)) (py_range count)"
      using s by (simp add: fin py_range_def)
    then show ?thesis using Inr g ok s by (auto simp: asyncio_spawn_many_def Let_def)
  qed
qed

lemma task_group_spawn_returns:
  assumes "schedule_of count sched"
  shows "snd (task_group fn sched (replicate (nat count) None)) = Inr results \<longleftrightarrow>
     (\<forall>i < nat count. \<exists>v. fn i = Inr v)
     \<and> results = map (\<lambda>i. value_of (fn i)) (py_range count)"
proof -
  have s: "set sched = {0..<nat count}"
    using assms by (auto simp: schedule_of_def py_range_def)
  have "fold (\<lambda>i r. r[i := value_of (fn i)]) sched (replicate (nat count) None)
      = map (\<lambda>i. value_of (fn i)) [0..<nat count]"
    by (subst map_upt_eq_iff) (simp_all add: nth_fold_store s)
  then show ?thesis
    using task_group_returns[of fn sched "replicate (nat count) None" results] s
    by (auto simp: py_range_def)
qed

lemma spawn_many_returns:
  assumes "schedule_of count sched"
  shows "spawn_many b count fn sched = Inr results \<longleftrightarrow>
     (\<forall>i < nat count. \<exists>v. fn i = Inr v)
     \<and> results = map (\<lambda>i. value_of (fn i)) (py_range count)"
proof (cases b)
  case AsyncioBackend
  then show ?thesis
    using asyncio_spawn_many_returns[OF assms] by (simp add: spawn_many_def)
next
  case TrioBackend
  then show ?thesis
    using task_group_spawn_returns[OF assms]
    by (simp add: spawn_many_def trio_spawn_many_def split_def Let_def)
next
  case AnyioBackend
  then show ?thesis
    using task_group_spawn_returns[OF assms]
    by (simp add: spawn_many_def anyio_spawn_many_def split_def Let_def)
qed

text \<open>
  Claim C1. For every backend and every count \<open>n \<ge> 0\<close>, in every order of completion,
  \<open>spawn_many(n, fn)\<close> returns exactly \<open>n\<close> results, the one at position \<open>i\<close> being
  the value \<open>fn(i)\<close> returned. The call returns exactly when no unit raises; the list it
  returns does not depend on the order of completion.
\<close>

theorem spawn_many_ordered_results:
  "0 \<le> count \<Longrightarrow> schedule_of count sched \<Longrightarrow>
     (spawn_many b count fn sched = Inr results \<longrightarrow>
        int (length results) = count
        \<and> (\<forall>i < length results. \<exists>v. fn i = Inr v \<and> results ! i = Some v))
     \<and> ((\<forall>i < nat count. \<exists>v. fn i = Inr v) \<longrightarrow>
          spawn_many b count fn sched = Inr (map (\<lambda>i. value_of (fn i)) (py_range count)))"
  using spawn_many_returns[of count sched b fn]
  by (auto simp: py_range_def value_of_def)

theorem spawn_many_ordered_results_witness:
  "(0::int) \<le> 3 \<and> schedule_of 3 [2, 0, 1]
   \<and> spawn_many TrioBackend 3 (\<lambda>i. Inr (10 * i)) [2, 0, 1] = Inr [Some 0, Some 10, Some 20]
   \<and> spawn_many AsyncioBackend 3 (\<lambda>i. Inr (10 * i)) [2, 0, 1] = Inr [Some 0, Some 10, Some 20]
   \<and> spawn_many_trace TrioBackend 3 (\<lambda>i. Inr (10 * i)) [2, 0, 1]
       = [Spawn 0, Spawn 1, Spawn 2, Suspend,
          Exit 2 (Returned 20), Exit 0 (Returned 0), Exit 1 (Returned 10)]"
proof -
  have s: "schedule_of 3 [2, 0, 1]"
    by (auto simp: schedule_of_def py_range_def)
  have u: "[0..<3] = [0, 1, 2]" by code_simp
  show ?thesis
    using spawn_many_ordered_results[of 3 "[2, 0, 1]" TrioBackend "\<lambda>i. Inr (10 * i)" "[Some 0, Some 10, Some 20]"] s
    by (simp add: spawn_many_def spawn_many_trace_def trio_spawn_many_def asyncio_spawn_many_def
        py_range_def u Let_def value_of_def)
qed




lemma upt2: "[0..<2] = [0, 1]" by code_simp



section \<open>Backends: cancellation\_storm\<close>
















lemma quiet_simps [simp]:
  "quiet []" "quiet (ev # tr) \<longleftrightarrow> \<not> is_signal ev \<and> \<not> is_spawn ev \<and> quiet tr"
  "quiet (xs @ ys) \<longleftrightarrow> quiet xs \<and> quiet ys"
  by (auto simp: quiet_def)

lemma signals_simps [simp]:
  "signals [] = []"
  "signals (xs @ ys) = signals xs @ signals ys"
  "signals (map Cancel ts) = ts"
  "signals (map Spawn ts) = []"
  "signals (Suspend # tr) = signals tr"
  "signals (Exit i out # tr) = signals tr"
  "signals (Surface e # tr) = signals tr"
  "signals (Abort i # tr) = signals tr"
  by (induction ts) (simp_all add: signals_def)







lemma quiet_exits_alone [simp]: "quiet (exits_alone task_fn sched)"
  by (induction sched) (auto simp: exits_alone_def split: option.splits)

lemma quiet_exits_cancelled [simp]: "quiet (exits_cancelled task_fn sched)"
  by (induction sched) (auto simp: exits_cancelled_def split: option.splits)



lemma quiet_aborts [simp]: "quiet (map Abort us)"
  by (auto simp: quiet_def)

lemma spawns_no_signal [simp]: "ev \<in> set (map Spawn us) \<Longrightarrow> \<not> is_signal ev"
  by auto







lemma quiet_no_signal: "quiet tr \<Longrightarrow> ev \<in> set tr \<Longrightarrow> \<not> is_signal ev"
  by (simp add: quiet_def)







section \<open>Scenarios\<close>

lemma percentile_total:
  "0 \<le> pct \<Longrightarrow> pct \<le> 100 \<Longrightarrow> \<exists>r. percentile xs pct = Inr r"
  using percentile_matches_reference[of xs pct]
  by (cases "xs = []") (auto simp: percentile_unfold)

lemma task_spawn_metrics_value:
  "\<exists>p50 p95. task_spawn_metrics params el lats =
     Inr [(''tasks'', VInt (TaskSpawnParams.task_count params)),
          (''payload_sleep_s'', VFloat (TaskSpawnParams.payload_sleep params)),
          (''duration_s'', VFloat el),
          (''tasks_per_sec'',
             if el \<noteq> 0 then VFloat (real_of_int (TaskSpawnParams.task_count params) / el) else VInf),
          (''latency_p50_ms'', VFloat (p50 * 1000)),
          (''latency_p95_ms'', VFloat (p95 * 1000))]"
proof -
  obtain p50 where a: "percentile lats 50 = Inr p50" using percentile_total[of 50 lats] by auto
  obtain p95 where b: "percentile lats 95 = Inr p95" using percentile_total[of 95 lats] by auto
  show ?thesis by (simp add: task_spawn_metrics_def truediv_def a b)
qed

lemma io_bound_metrics_value:
  "\<exists>p95 p99. io_bound_metrics params el lats =
     Inr [(''workers'', VInt (IOBoundParams.concurrency params)),
          (''ops_per_worker'', VInt (IOBoundParams.ops_per_worker params)),
          (''mean_delay_ms'', VFloat (mean_delay_ms params)),
          (''duration_s'', VFloat el),
          (''ops'', VInt (IOBoundParams.concurrency params * IOBoundParams.ops_per_worker params)),
          (''ops_per_sec'',
             if el \<noteq> 0 then VFloat (real_of_int (IOBoundParams.concurrency params * IOBoundParams.ops_per_worker params) / el)
             else VInf),
          (''latency_mean_ms'', VFloat (mean lats * 1000)),
          (''latency_p95_ms'', VFloat (p95 * 1000)),
          (''latency_p99_ms'', VFloat (p99 * 1000))]"
proof -
  obtain p95 where a: "percentile lats 95 = Inr p95" using percentile_total[of 95 lats] by auto
  obtain p99 where b: "percentile lats 99 = Inr p99" using percentile_total[of 99 lats] by auto
  show ?thesis by (simp add: io_bound_metrics_def truediv_def a b Let_def)
qed

text \<open>
  Claim C9. The throughput computations of the task-spawn and I/O-bound scenarios are
  total: for every elapsed time and every list of latencies the metrics are computed
  without an exception, and when the elapsed time is 0 the reported \<open>tasks_per_sec\<close>
  and \<open>ops_per_sec\<close> are positive infinity.
\<close>

theorem throughput_total:
  "(\<exists>d. task_spawn_metrics params el lats = Inr d)
   \<and> (\<exists>d. task_spawn_metrics params 0 lats = Inr d \<and> dict_get d ''tasks_per_sec'' = Inr VInf)
   \<and> (\<exists>d. io_bound_metrics ioparams el lats = Inr d)
   \<and> (\<exists>d. io_bound_metrics ioparams 0 lats = Inr d \<and> dict_get d ''ops_per_sec'' = Inr VInf)"
proof -
  have a: "\<exists>d. task_spawn_metrics params el lats = Inr d"
    using task_spawn_metrics_value[of params el lats] by blast
  have b: "\<exists>d. task_spawn_metrics params 0 lats = Inr d \<and> dict_get d ''tasks_per_sec'' = Inr VInf"
    using task_spawn_metrics_value[of params 0 lats] by (auto simp: dict_get_def)
  have c: "\<exists>d. io_bound_metrics ioparams el lats = Inr d"
    using io_bound_metrics_value[of ioparams el lats] by blast
  have d: "\<exists>d. io_bound_metrics ioparams 0 lats = Inr d \<and> dict_get d ''ops_per_sec'' = Inr VInf"
    using io_bound_metrics_value[of ioparams 0 lats] by (auto simp: dict_get_def)
  show ?thesis using a b c d by blast
qed








section \<open>I/O-bound scenario\<close>

lemma delay_stream_snoc:
  "delay_stream gen lambd g (Suc n)
     = delay_stream gen lambd g n @ [fst (expovariate gen (rng_after gen lambd g n) lambd) / 1000]"
  by (induction n arbitrary: g) (simp_all add: case_prod_beta Let_def)

lemma rng_after_snoc:
  "rng_after gen lambd g (Suc n) = snd (expovariate gen (rng_after gen lambd g n) lambd)"
  by (induction n arbitrary: g) simp_all

lemma sum_change_one:
  fixes g h :: "nat \<Rightarrow> nat"
  assumes "w < n" "\<forall>i. i \<noteq> w \<longrightarrow> g i = h i"
  shows "(\<Sum>i<n. g i) + h w = (\<Sum>i<n. h i) + g w"
proof -
  have fin: "finite {..<n}" and mem: "w \<in> {..<n}" using assms by simp_all
  have a: "(\<Sum>i<n. g i) = g w + (\<Sum>i\<in>{..<n} - {w}. g i)"
    using sum.remove[OF fin mem, of g] by simp
  have b: "(\<Sum>i<n. h i) = h w + (\<Sum>i\<in>{..<n} - {w}. h i)"
    using sum.remove[OF fin mem, of h] by simp
  have c: "(\<Sum>i\<in>{..<n} - {w}. g i) = (\<Sum>i\<in>{..<n} - {w}. h i)"
    by (rule sum.cong) (use assms(2) in auto)
  show ?thesis using a b c by simp
qed

lemma total_drawn_update:
  assumes "w < nat (IOBoundParams.concurrency ps)"
  shows "total_drawn ps (st\<lparr>st_workers := (st_workers st)(w := s)\<rparr>)
           + drawn (nat (IOBoundParams.ops_per_worker ps)) (st_workers st w)
         = total_drawn ps st + drawn (nat (IOBoundParams.ops_per_worker ps)) s"
  unfolding total_drawn_def
  using sum_change_one[OF assms,
      of "\<lambda>i. drawn (nat (IOBoundParams.ops_per_worker ps)) (((st_workers st)(w := s)) i)"
         "\<lambda>i. drawn (nat (IOBoundParams.ops_per_worker ps)) (st_workers st i)"]
  by simp

lemma total_drawn_other [simp]:
  "total_drawn ps (st\<lparr>st_op_latencies := x\<rparr>) = total_drawn ps st"
  "total_drawn ps (st\<lparr>st_completed := y\<rparr>) = total_drawn ps st"
  "total_drawn ps (st\<lparr>st_rng := g\<rparr>) = total_drawn ps st"
  "total_drawn ps (st\<lparr>st_delays := d\<rparr>) = total_drawn ps st"
  by (simp_all add: total_drawn_def)

lemma io_inv_init:
  "io_inv ps gen \<lparr>st_rng = seeded gen (seed ps), st_workers = (\<lambda>w. NotStarted), st_delays = [],
        st_op_latencies = [], st_completed = []\<rparr>"
  by (simp add: io_inv_def total_drawn_def)

lemma io_inv_finish:
  assumes inv: "io_inv ps gen st" and w: "w < nat (IOBoundParams.concurrency ps)"
    and d: "drawn (nat (IOBoundParams.ops_per_worker ps)) (Finished r)
              = drawn (nat (IOBoundParams.ops_per_worker ps)) (st_workers st w)"
    and l: "\<forall>e. r = Inl e \<longrightarrow> mean_delay_ms ps = 0"
    and k: "\<forall>u. r = Inr u \<longrightarrow> mean_delay_ms ps \<noteq> 0 \<or> nat (IOBoundParams.ops_per_worker ps) = 0"
  shows "io_inv ps gen (finish w r st)"
proof -
  have t: "total_drawn ps (st\<lparr>st_workers := (st_workers st)(w := Finished r)\<rparr>) = total_drawn ps st"
    using total_drawn_update[OF w, of st "Finished r"] d by simp
  have f: "finish w r st
      = (st\<lparr>st_workers := (st_workers st)(w := Finished r)\<rparr>)\<lparr>st_completed := st_completed st @ [w]\<rparr>"
    by (simp add: finish_def)
  show ?thesis
    unfolding f io_inv_def using inv l k t
    by (simp add: io_inv_def del: fun_upd_apply) (auto simp: fun_upd_apply)
qed

lemma io_inv_draw:
  assumes inv: "io_inv ps gen st" and w: "w < nat (IOBoundParams.concurrency ps)"
    and m: "mean_delay_ms ps \<noteq> 0"
    and d: "drawn (nat (IOBoundParams.ops_per_worker ps)) (st_workers st w) = k"
    and b: "Suc k \<le> nat (IOBoundParams.ops_per_worker ps)"
  shows "io_inv ps gen (begin_op ps gen w k st)"
proof -
  let ?lam = "1 / mean_delay_ms ps"
  let ?n = "total_drawn ps st"
  obtain x g' where e: "expovariate gen (st_rng st) ?lam = (x, g')"
    by (cases "expovariate gen (st_rng st) ?lam")
  have r: "st_rng st = rng_after gen ?lam (seeded gen (seed ps)) ?n"
    and ds: "st_delays st = delay_stream gen ?lam (seeded gen (seed ps)) ?n"
    using inv by (simp_all add: io_inv_def)
  have ds': "st_delays st @ [x / 1000] = delay_stream gen ?lam (seeded gen (seed ps)) (Suc ?n)"
    using delay_stream_snoc[of gen ?lam "seeded gen (seed ps)" ?n] ds r e by simp
  have r': "g' = rng_after gen ?lam (seeded gen (seed ps)) (Suc ?n)"
    using rng_after_snoc[of gen ?lam "seeded gen (seed ps)" ?n] r e by simp
  have t: "total_drawn ps (st\<lparr>st_workers := (st_workers st)(w := Sleeping k)\<rparr>) = Suc ?n"
    using total_drawn_update[OF w, of st "Sleeping k"] d by simp
  have st': "begin_op ps gen w k st
      = ((st\<lparr>st_workers := (st_workers st)(w := Sleeping k)\<rparr>)\<lparr>st_rng := g'\<rparr>)
          \<lparr>st_delays := st_delays st @ [x / 1000]\<rparr>"
    using m e by (simp add: begin_op_def)
  have old: "\<forall>w j. st_workers st w = Sleeping j \<longrightarrow>
            Suc j \<le> nat (IOBoundParams.ops_per_worker ps) \<and> mean_delay_ms ps \<noteq> 0"
    "\<forall>w e. st_workers st w = Finished (Inl e) \<longrightarrow> mean_delay_ms ps = 0"
    "\<forall>w u. st_workers st w = Finished (Inr u) \<longrightarrow>
            mean_delay_ms ps \<noteq> 0 \<or> nat (IOBoundParams.ops_per_worker ps) = 0"
    using inv by (simp_all add: io_inv_def)
  show ?thesis
    unfolding st' io_inv_def
    using old m b
    by (simp add: t ds'[symmetric] r'[symmetric] del: fun_upd_apply delay_stream.simps rng_after.simps)
       (auto simp: fun_upd_apply)
qed

lemma io_inv_resume:
  assumes inv: "io_inv ps gen st"
  shows "io_inv ps gen (resume ps gen ob w st)"
proof (cases "w < nat (IOBoundParams.concurrency ps)")
  case False
  then show ?thesis using inv by (simp add: resume_def)
next
  case True
  show ?thesis
  proof (cases "st_workers st w")
    case NotStarted
    show ?thesis
    proof (cases "0 < IOBoundParams.ops_per_worker ps")
      case pos: True
      show ?thesis
      proof (cases "mean_delay_ms ps = 0")
        case True
        have "io_inv ps gen (finish w (Inl ZeroDivisionError) st)"
          using io_inv_finish[OF inv \<open>w < nat (IOBoundParams.concurrency ps)\<close>, of "Inl ZeroDivisionError"]
            NotStarted True by simp
        then show ?thesis using NotStarted pos True \<open>w < nat (IOBoundParams.concurrency ps)\<close>
          by (simp add: resume_def begin_op_def)
      next
        case False
        have "io_inv ps gen (begin_op ps gen w 0 st)"
          using io_inv_draw[OF inv \<open>w < nat (IOBoundParams.concurrency ps)\<close> False, of 0]
            NotStarted pos by simp
        then show ?thesis using NotStarted pos \<open>w < nat (IOBoundParams.concurrency ps)\<close>
          by (simp add: resume_def)
      qed
    next
      case False
      have "io_inv ps gen (finish w (Inr ()) st)"
        using io_inv_finish[OF inv \<open>w < nat (IOBoundParams.concurrency ps)\<close>, of "Inr ()"]
          NotStarted False by simp
      then show ?thesis using NotStarted False \<open>w < nat (IOBoundParams.concurrency ps)\<close>
        by (simp add: resume_def)
    qed
  next
    case (Sleeping k)
    let ?st1 = "st\<lparr>st_op_latencies := st_op_latencies st @ [obs_op_latency ob w k]\<rparr>"
    have inv1: "io_inv ps gen ?st1" using inv by (simp add: io_inv_def)
    have sl: "Suc k \<le> nat (IOBoundParams.ops_per_worker ps)" and m: "mean_delay_ms ps \<noteq> 0"
      using inv Sleeping by (auto simp: io_inv_def)
    show ?thesis
    proof (cases "int (k + 1) < IOBoundParams.ops_per_worker ps")
      case True
      have "io_inv ps gen (begin_op ps gen w (k + 1) ?st1)"
        using io_inv_draw[OF inv1 _ m, of w "k + 1"] \<open>w < nat (IOBoundParams.concurrency ps)\<close>
          Sleeping True by simp
      then show ?thesis using Sleeping True \<open>w < nat (IOBoundParams.concurrency ps)\<close>
        by (simp add: resume_def Let_def)
    next
      case False
      then have eq: "Suc k = nat (IOBoundParams.ops_per_worker ps)" using sl by linarith
      have "io_inv ps gen (finish w (Inr ()) ?st1)"
        using io_inv_finish[OF inv1, of w "Inr ()"] \<open>w < nat (IOBoundParams.concurrency ps)\<close>
          Sleeping eq m by simp
      then show ?thesis using Sleeping False \<open>w < nat (IOBoundParams.concurrency ps)\<close>
        by (simp add: resume_def Let_def)
    qed
  next
    case (Finished r)
    then show ?thesis using inv True by (simp add: resume_def)
  qed
qed

lemma io_inv_fold: "io_inv ps gen st \<Longrightarrow> io_inv ps gen (fold (resume ps gen ob) ws st)"
  by (induction ws arbitrary: st) (simp_all add: io_inv_resume)

lemma io_inv_workers: "io_inv ps gen (io_bound_workers ps gen ob)"
  unfolding io_bound_workers_def by (rule io_inv_fold) (rule io_inv_init)

lemma length_delay_stream [simp]: "length (delay_stream gen lambd g n) = n"
  by (induction n arbitrary: g) (simp_all add: case_prod_beta Let_def)

lemma finished_case:
  "(case s of Finished r \<Rightarrow> True | _ \<Rightarrow> False) \<longleftrightarrow> (\<exists>r. s = Finished r)"
  by (cases s) auto

lemma all_finished_iff:
  "all_finished ps gen ob \<longleftrightarrow>
     (\<forall>w < nat (IOBoundParams.concurrency ps). \<exists>r. st_workers (io_bound_workers ps gen ob) w = Finished r)"
  by (auto simp: all_finished_def list_all_iff py_range_def finished_case)

lemma total_drawn_finished:
  assumes inv: "io_inv ps gen st"
    and fin: "\<forall>w < nat (IOBoundParams.concurrency ps). \<exists>r. st_workers st w = Finished r"
  shows "total_drawn ps st
     = (if mean_delay_ms ps = 0 then 0
        else nat (IOBoundParams.concurrency ps) * nat (IOBoundParams.ops_per_worker ps))"
proof -
  let ?m = "nat (IOBoundParams.ops_per_worker ps)"
  let ?c = "if mean_delay_ms ps = 0 then 0 else ?m"
  have each: "drawn ?m (st_workers st w) = ?c" if wl: "w < nat (IOBoundParams.concurrency ps)" for w
  proof -
    obtain r where r: "st_workers st w = Finished r" using fin wl by blast
    show ?thesis
    proof (cases r)
      case (Inl e)
      then have "mean_delay_ms ps = 0" using inv r by (auto simp: io_inv_def)
      then show ?thesis using r Inl by simp
    next
      case (Inr u)
      then have "mean_delay_ms ps \<noteq> 0 \<or> ?m = 0" using inv r by (auto simp: io_inv_def)
      then show ?thesis using r Inr by auto
    qed
  qed
  have "total_drawn ps st = (\<Sum>w<nat (IOBoundParams.concurrency ps). ?c)"
    unfolding total_drawn_def by (rule sum.cong) (simp_all add: each)
  then show ?thesis by simp
qed

text \<open>
  Claim C7. The delays that a run of the I/O-bound scenario draws are, in the order of the
  draws, the first delays of the generator seeded with \<open>params.seed\<close>: a function of
  the parameters alone. Two runs with the same parameters in which every worker finishes
  draw identical sequences, whatever the order in which the backend resumes the workers
  and whatever latencies the clock shows.
\<close>

theorem io_bound_delays_reproducible:
  "io_bound_delays ps gen ob
     = delay_stream gen (1 / mean_delay_ms ps) (seeded gen (seed ps))
         (length (io_bound_delays ps gen ob))
   \<and> (all_finished ps gen ob \<longrightarrow>
        length (io_bound_delays ps gen ob)
          = (if mean_delay_ms ps = 0 then 0
             else nat (IOBoundParams.concurrency ps) * nat (IOBoundParams.ops_per_worker ps)))
   \<and> (all_finished ps gen ob \<longrightarrow> all_finished ps gen ob' \<longrightarrow>
        io_bound_delays ps gen ob = io_bound_delays ps gen ob')"
proof -
  have d: "io_bound_delays ps gen x
      = delay_stream gen (1 / mean_delay_ms ps) (seeded gen (seed ps))
          (total_drawn ps (io_bound_workers ps gen x))" for x
    using io_inv_workers[of ps gen x] by (simp add: io_inv_def io_bound_delays_def)
  have l: "length (io_bound_delays ps gen x) = total_drawn ps (io_bound_workers ps gen x)" for x
    by (simp add: d)
  have f: "total_drawn ps (io_bound_workers ps gen x)
      = (if mean_delay_ms ps = 0 then 0
         else nat (IOBoundParams.concurrency ps) * nat (IOBoundParams.ops_per_worker ps))"
    if "all_finished ps gen x" for x
    using total_drawn_finished[OF io_inv_workers[of ps gen x]] that by (simp add: all_finished_iff)
  have a: "io_bound_delays ps gen ob
     = delay_stream gen (1 / mean_delay_ms ps) (seeded gen (seed ps))
         (length (io_bound_delays ps gen ob))"
    using d[of ob] l[of ob] by simp
  have b: "all_finished ps gen ob \<longrightarrow>
        length (io_bound_delays ps gen ob)
          = (if mean_delay_ms ps = 0 then 0
             else nat (IOBoundParams.concurrency ps) * nat (IOBoundParams.ops_per_worker ps))"
    using l[of ob] f[of ob] by simp
  have c: "all_finished ps gen ob \<longrightarrow> all_finished ps gen ob' \<longrightarrow>
        io_bound_delays ps gen ob = io_bound_delays ps gen ob'"
    using d[of ob] d[of ob'] f[of ob] f[of ob'] by simp
  show ?thesis using a b c by blast
qed

lemma sample_io_run1:
  "io_bound_workers sample_io sample_gen sample_obs
     = \<lparr>st_rng = 11,
        st_workers = (\<lambda>w. NotStarted)(0 := Finished (Inr ()), 1 := Finished (Inr ())),
        st_delays = [1 / 200, 1 / 100, 3 / 200, 1 / 50],
        st_op_latencies = [1 / 100, 1 / 100, 1 / 100, 1 / 100], st_completed = [0, 1]\<rparr>"
  by (simp add: io_bound_workers_def sample_io_def sample_gen_def sample_obs_def resume_def
      begin_op_def finish_def fun_upd_twist)

lemma sample_io_run2:
  "io_bound_workers sample_io sample_gen sample_obs2
     = \<lparr>st_rng = 11,
        st_workers = (\<lambda>w. NotStarted)(0 := Finished (Inr ()), 1 := Finished (Inr ())),
        st_delays = [1 / 200, 1 / 100, 3 / 200, 1 / 50],
        st_op_latencies = [3 / 100, 3 / 100, 3 / 100, 3 / 100], st_completed = [1, 0]\<rparr>"
  by (simp add: io_bound_workers_def sample_io_def sample_gen_def sample_obs2_def resume_def
      begin_op_def finish_def fun_upd_twist)

theorem io_bound_delays_reproducible_witness:
  "all_finished sample_io sample_gen sample_obs \<and> all_finished sample_io sample_gen sample_obs2
   \<and> obs_steps sample_obs \<noteq> obs_steps sample_obs2
   \<and> io_bound_delays sample_io sample_gen sample_obs = [1 / 200, 1 / 100, 3 / 200, 1 / 50]
   \<and> io_bound_delays sample_io sample_gen sample_obs2 = [1 / 200, 1 / 100, 3 / 200, 1 / 50]"
proof -
  have c: "IOBoundParams.concurrency sample_io = 2" by (simp add: sample_io_def)
  have a: "all_finished sample_io sample_gen sample_obs"
    unfolding all_finished_def sample_io_run1 c by (simp add: py_range_def upt2)
  have b: "all_finished sample_io sample_gen sample_obs2"
    unfolding all_finished_def sample_io_run2 c by (simp add: py_range_def upt2)
  have d: "io_bound_delays sample_io sample_gen sample_obs = [1 / 200, 1 / 100, 3 / 200, 1 / 50]"
    by (simp add: io_bound_delays_def sample_io_run1)
  have e: "obs_steps sample_obs \<noteq> obs_steps sample_obs2"
    by (simp add: sample_obs_def sample_obs2_def)
  have "io_bound_delays sample_io sample_gen sample_obs
      = io_bound_delays sample_io sample_gen sample_obs2"
    using io_bound_delays_reproducible [of sample_io sample_gen sample_obs sample_obs2] a b
    by blast
  then have f: "io_bound_delays sample_io sample_gen sample_obs2
      = [1 / 200, 1 / 100, 3 / 200, 1 / 50]"
    using d by simp
  show ?thesis using a b d e f by simp
qed

section \<open>Runner\<close>

















lemma prefix_trans:
  "take (length h) h' = h \<Longrightarrow> take (length h') h'' = h' \<Longrightarrow> take (length h) h'' = h"
  by (metis append_eq_conv_conj append_take_drop_id take_append take_all_iff order_refl
      append.assoc)

lemma update_beyond: "length h \<le> a \<Longrightarrow> take (length h) (update h' a other) = take (length h) h'"
  by (simp add: update_def split: obj.splits)

lemma setitem_beyond: "length h \<le> a \<Longrightarrow> take (length h) (setitem h' a k v) = take (length h) h'"
  by (simp add: setitem_def split: obj.splits)

lemma run_task_spawn_frame:
  "take (length h) (fst (run_task_spawn b h (Some p) ob)) = h"
  by (simp add: run_task_spawn_def new_obj_def Let_def split: obj.splits sum.splits)

lemma run_io_bound_frame:
  "take (length h) (fst (run_io_bound b h (Some p) gen ob)) = h"
  by (simp add: run_io_bound_def new_obj_def Let_def split: obj.splits sum.splits)

lemma run_cancellation_frame:
  "take (length h) (fst (run_cancellation b h (Some p) ob)) = h"
  by (simp add: run_cancellation_def cancellation_storm_obj_def new_obj_def Let_def update_beyond
      split: obj.splits sum.splits)

lemma call_fn_frame: "take (length h) (fst (call_fn fn gen ob b h p)) = h"
  by (cases fn) (simp_all add: run_task_spawn_frame run_io_bound_frame run_cancellation_frame)

lemma call_fn_result:
  "call_fn fn gen ob b h p = (h1, Inr m) \<Longrightarrow> length h \<le> length h1"
  using call_fn_frame[of h fn gen ob b p]
  by (metis fst_conv length_take min.cobounded2 min.commute)

lemma run_benchmark_result:
  assumes "run_benchmark gen ob h b nm fn p = (h1, r)"
  shows "take (length h) h1 = h" and "r = Inr entry \<Longrightarrow> length h \<le> entry \<and> entry < length h1"
proof -
  obtain hc rc where c: "call_fn fn gen ob b h p = (hc, rc)" by (cases "call_fn fn gen ob b h p")
  have fc: "take (length h) hc = h" using call_fn_frame[of h fn gen ob b p] c by simp
  then have lc: "length h \<le> length hc" by (metis length_take min.cobounded2 min.commute)
  show "take (length h) h1 = h"
    using assms c fc lc
    by (auto simp: run_benchmark_def run_def new_obj_def Let_def split: sum.splits)
  show "r = Inr entry \<Longrightarrow> length h \<le> entry \<and> entry < length h1"
    using assms c lc
    by (auto simp: run_benchmark_def run_def new_obj_def Let_def split: sum.splits)
qed

lemma repetition_frame:
  assumes "repetition gen obs b nm fn params rep (h, es) = Inr (h', es')"
  shows "take (length h) h' = h"
proof -
  obtain p where p: "map_of params nm = Some p"
    using assms by (auto simp: repetition_def split: option.splits)
  obtain h1 r where rb: "run_benchmark gen (obs (length es)) h b nm fn p = (h1, r)"
    by (cases "run_benchmark gen (obs (length es)) h b nm fn p")
  obtain entry where r: "r = Inr entry"
    using assms p rb by (cases r) (auto simp: repetition_def)
  have h': "h' = setitem (setitem h1 entry ''rep'' (VInt (int rep + 1))) entry ''duration_s''
      (VFloat (obs_wall (obs (length es))))"
    using assms p rb r by (simp add: repetition_def Let_def)
  have "length h \<le> entry" using run_benchmark_result(2)[OF rb r] by simp
  then show ?thesis
    unfolding h' using run_benchmark_result(1)[OF rb] by (simp add: setitem_beyond)
qed

lemma for_each_frame:
  assumes step: "\<And>x h es h' es'. body x (h, es) = Inr (h', es') \<Longrightarrow> take (length h) h' = h"
  shows "for_each xs body (h, es) = Inr (h', es') \<Longrightarrow> take (length h) h' = h"
proof (induction xs arbitrary: h es)
  case Nil
  then show ?case by simp
next
  case (Cons x xs)
  obtain h1 es1 where b: "body x (h, es) = Inr (h1, es1)"
    using Cons.prems by (cases "body x (h, es)") auto
  have r: "for_each xs body (h1, es1) = Inr (h', es')" using Cons.prems b by simp
  show ?case using prefix_trans[OF step[OF b] Cons.IH[OF r]] .
qed

lemma main_frame:
  assumes "main args gen obs h0 = Inr (hf, entries)"
  shows "take (length (fst (build_params args h0))) hf = fst (build_params args h0)"
proof -
  obtain hp params where bp: "build_params args h0 = (hp, params)"
    by (cases "build_params args h0")
  have inner: "for_each reps (repetition gen obs b nm fn params) (h, es) = Inr (h', es')
      \<Longrightarrow> take (length h) h' = h" for reps b nm fn h es h' es'
    by (rule for_each_frame[of "repetition gen obs b nm fn params"]) (rule repetition_frame)
  have middle: "for_each scs (\<lambda>scenario_name s.
                    case SCENARIOS scenario_name of
                      None \<Rightarrow> Inl KeyError
                    | Some fn \<Rightarrow>
                        for_each (py_range (repetitions args))
                          (repetition gen obs b scenario_name fn params) s) (h, es) = Inr (h', es')
      \<Longrightarrow> take (length h) h' = h" for scs b h es h' es'
    by (rule for_each_frame[where body="\<lambda>scenario_name s. case SCENARIOS scenario_name of
                      None \<Rightarrow> Inl KeyError
                    | Some fn \<Rightarrow> for_each (py_range (repetitions args))
                          (repetition gen obs b scenario_name fn params) s"])
       (auto split: option.splits dest: inner)
  have outer: "for_each libs (\<lambda>lib s.
           case BACKENDS lib of
             None \<Rightarrow> Inl KeyError
           | Some backend \<Rightarrow>
               for_each (benchmarks args)
                 (\<lambda>scenario_name s.
                    case SCENARIOS scenario_name of
                      None \<Rightarrow> Inl KeyError
                    | Some fn \<Rightarrow>
                        for_each (py_range (repetitions args))
                          (repetition gen obs backend scenario_name fn params) s) s) (h, es) = Inr (h', es')
      \<Longrightarrow> take (length h) h' = h" for libs h es h' es'
    by (rule for_each_frame[where body="\<lambda>lib s.
           case BACKENDS lib of
             None \<Rightarrow> Inl KeyError
           | Some backend \<Rightarrow>
               for_each (benchmarks args)
                 (\<lambda>scenario_name s.
                    case SCENARIOS scenario_name of
                      None \<Rightarrow> Inl KeyError
                    | Some fn \<Rightarrow>
                        for_each (py_range (repetitions args))
                          (repetition gen obs backend scenario_name fn params) s) s"])
       (auto split: option.splits dest: middle)
  show ?thesis using assms bp outer[of "libraries args" hp "[]" hf entries]
    by (simp add: main_def)
qed


lemma run_cancellation_in_place:
  assumes "h ! p = OCancellationParams ps"
    and "cancellation_storm_obj b h (CancellationParams.task_count ps) (long_task b)
           (obs_sched ob) (obs_settle ob) = (h1, Inr r)"
  shows "run_cancellation b h (Some p) ob
     = (update h1 r [(''tasks'', VInt (CancellationParams.task_count ps)),
                     (''cancel_after_s'', VFloat (cancel_after_s ps)),
                     (''duration_s'', VFloat (obs_duration ob))], Inr r)"
  using assms by (simp add: run_cancellation_def)

lemma repetition_in_place:
  assumes "map_of params nm = Some p"
    and "run_benchmark gen (obs (length es)) h b nm fn p = (h1, Inr entry)"
  shows "repetition gen obs b nm fn params rep (h, es)
     = Inr (setitem (setitem h1 entry ''rep'' (VInt (int rep + 1))) entry ''duration_s''
              (VFloat (obs_wall (obs (length es)))), es @ [entry])"
  using assms by (simp add: repetition_def Let_def)

text \<open>
  Claim C8, as amended. ScenarioParams objects are never mutated after construction, and
  no object is modified once the iteration of the runner's loop that created it has
  ended: a scenario call, \<open>run_benchmark\<close>, an iteration of the loop and the whole of
  \<open>main\<close> leave every object that existed before unchanged. Within the iteration that
  creates them, \<open>run_cancellation\<close> adds \<open>tasks\<close>, \<open>cancel_after_s\<close> and
  \<open>duration_s\<close> in place to the dict that \<open>cancellation_storm\<close> returned, and
  \<open>main\<close> adds \<open>rep\<close> and \<open>duration_s\<close> in place to the entry that
  \<open>run_benchmark\<close> returned.
\<close>

theorem objects_after_creation:
  "take (length h) (fst (call_fn fn gen ob b h p)) = h
   \<and> take (length h) (fst (run_benchmark gen ob h b nm fn p)) = h
   \<and> (repetition gen obs b nm fn params rep (h, es) = Inr (h', es') \<longrightarrow> take (length h) h' = h)
   \<and> (main args gen obs h0 = Inr (hf, entries) \<longrightarrow>
        take (length (fst (build_params args h0))) hf = fst (build_params args h0))
   \<and> (h ! p = OCancellationParams ps \<longrightarrow>
        cancellation_storm_obj b h (CancellationParams.task_count ps) (long_task b)
          (obs_sched ob) (obs_settle ob) = (h1, Inr r) \<longrightarrow>
        run_cancellation b h (Some p) ob
          = (update h1 r [(''tasks'', VInt (CancellationParams.task_count ps)),
                          (''cancel_after_s'', VFloat (cancel_after_s ps)),
                          (''duration_s'', VFloat (obs_duration ob))], Inr r))
   \<and> (map_of params nm = Some p \<longrightarrow>
        run_benchmark gen (obs (length es)) h b nm fn p = (h2, Inr entry) \<longrightarrow>
        repetition gen obs b nm fn params rep (h, es)
          = Inr (setitem (setitem h2 entry ''rep'' (VInt (int rep + 1))) entry ''duration_s''
                   (VFloat (obs_wall (obs (length es)))), es @ [entry]))"
proof -
  have a: "take (length h) (fst (run_benchmark gen ob h b nm fn p)) = h"
    using run_benchmark_result(1)[of gen ob h b nm fn p] by (metis prod.collapse)
  show ?thesis
    using a call_fn_frame[of h fn gen ob b p] repetition_frame[of gen obs b nm fn params rep h es h' es']
      main_frame[of args gen obs h0 hf entries]
      run_cancellation_in_place[of h p ps b ob h1 r]
      repetition_in_place[of params nm p gen obs es h b fn h2 entry rep]
    by blast
qed

lemma sample_storm_obj:
  "cancellation_storm_obj TrioBackend sample_heap 2 (long_task TrioBackend) [1, 0] (1 / 100)
     = (sample_heap @ [ODict [(''cancelled'', VInt 2), (''exceptions'', VInt 0),
                              (''settle_s'', VFloat (1 / 100))]], Inr 1)"
  by (simp add: cancellation_storm_obj_def cancellation_storm_def trio_cancellation_storm_def
      long_task_def Let_def new_obj_def sample_heap_def storm_result_def)

lemma sample_run_cancellation:
  "run_cancellation TrioBackend sample_heap (Some 0) sample_obs
     = (sample_heap @ [ODict [(''cancelled'', VInt 2), (''exceptions'', VInt 0),
                              (''settle_s'', VFloat (1 / 100)), (''tasks'', VInt 2),
                              (''cancel_after_s'', VFloat (1 / 20)),
                              (''duration_s'', VFloat (2 / 10))]], Inr 1)"
  by (simp add: run_cancellation_def cancellation_storm_obj_def cancellation_storm_def
      trio_cancellation_storm_def long_task_def Let_def new_obj_def sample_heap_def
      storm_result_def sample_obs_def update_def)

theorem objects_after_creation_witness:
  "sample_heap ! 0 = OCancellationParams \<lparr>CancellationParams.task_count = 2, cancel_after_s = 1 / 20\<rparr>
   \<and> cancellation_storm_obj TrioBackend sample_heap 2 (long_task TrioBackend) [1, 0] (1 / 100)
       = (sample_heap @ [ODict [(''cancelled'', VInt 2), (''exceptions'', VInt 0),
                                (''settle_s'', VFloat (1 / 100))]], Inr 1)
   \<and> run_cancellation TrioBackend sample_heap (Some 0) sample_obs
       = (update (sample_heap @ [ODict [(''cancelled'', VInt 2), (''exceptions'', VInt 0),
                                        (''settle_s'', VFloat (1 / 100))]]) 1
            [(''tasks'', VInt 2), (''cancel_after_s'', VFloat (1 / 20)),
             (''duration_s'', VFloat (2 / 10))], Inr 1)
   \<and> take (length sample_heap)
        (fst (call_fn FnCancellation sample_gen sample_obs TrioBackend sample_heap 0)) = sample_heap"
proof -
  let ?ps = "\<lparr>CancellationParams.task_count = 2, cancel_after_s = 1 / 20\<rparr>"
  let ?h1 = "sample_heap @ [ODict [(''cancelled'', VInt 2), (''exceptions'', VInt 0),
                                (''settle_s'', VFloat (1 / 100))]]"
  have i: "sample_heap ! 0 = OCancellationParams ?ps" by (simp add: sample_heap_def)
  have o: "obs_sched sample_obs = [1, 0]" "obs_settle sample_obs = 1 / 100"
    "obs_duration sample_obs = 2 / 10"
    by (simp_all add: sample_obs_def)
  have so: "cancellation_storm_obj TrioBackend sample_heap (CancellationParams.task_count ?ps)
      (long_task TrioBackend) (obs_sched sample_obs) (obs_settle sample_obs) = (?h1, Inr 1)"
    unfolding o using sample_storm_obj by simp
  note T = objects_after_creation [of sample_heap FnCancellation sample_gen sample_obs TrioBackend 0
      "''cancellation''" sample_run "[]" 0 "[]" "[]" "[]" sample_args "[]" "[]" "[]" ?ps ?h1 1]
  have r: "run_cancellation TrioBackend sample_heap (Some 0) sample_obs
       = (update ?h1 1
            [(''tasks'', VInt (CancellationParams.task_count ?ps)),
             (''cancel_after_s'', VFloat (cancel_after_s ?ps)),
             (''duration_s'', VFloat (obs_duration sample_obs))], Inr 1)"
    using T i so by blast
  have f: "take (length sample_heap)
        (fst (call_fn FnCancellation sample_gen sample_obs TrioBackend sample_heap 0)) = sample_heap"
    using T by blast
  show ?thesis using i sample_storm_obj r f unfolding o by simp
qed

text \<open>
  Claim C8 as stated fails: the dict that \<open>cancellation_storm\<close> returned and the entry
  that \<open>run_benchmark\<close> returned are not the same after their callers have gone on.
\<close>

theorem result_objects_mutated_counterexample:
  "snd (cancellation_storm_obj TrioBackend sample_heap 2 (long_task TrioBackend) [1, 0] (1 / 100)) = Inr 1
   \<and> snd (run_cancellation TrioBackend sample_heap (Some 0) sample_obs) = Inr 1
   \<and> fst (run_cancellation TrioBackend sample_heap (Some 0) sample_obs) ! 1
       \<noteq> fst (cancellation_storm_obj TrioBackend sample_heap 2 (long_task TrioBackend) [1, 0] (1 / 100)) ! 1
   \<and> snd (run_benchmark sample_gen sample_obs sample_heap TrioBackend ''cancellation''
            FnCancellation 0) = Inr 3
   \<and> heap_of (repetition sample_gen sample_run TrioBackend ''cancellation'' FnCancellation
                [(''cancellation'', 0)] 0 (sample_heap, [])) ! 3
       \<noteq> fst (run_benchmark sample_gen sample_obs sample_heap TrioBackend ''cancellation''
                FnCancellation 0) ! 3"
proof -
  have rb: "run_benchmark sample_gen sample_obs sample_heap TrioBackend ''cancellation''
            FnCancellation 0
     = (sample_heap @ [ODict [(''cancelled'', VInt 2), (''exceptions'', VInt 0),
                              (''settle_s'', VFloat (1 / 100)), (''tasks'', VInt 2),
                              (''cancel_after_s'', VFloat (1 / 20)),
                              (''duration_s'', VFloat (2 / 10))],
                       ODict [(''task_count'', VInt 2), (''cancel_after_s'', VFloat (1 / 20))],
                       ODict [(''library'', VStr ''trio''), (''scenario'', VStr ''cancellation''),
                              (''params'', VRef 2), (''metrics'', VRef 1)]], Inr 3)"
    unfolding run_benchmark_def run_def call_fn.simps sample_run_cancellation
    by (simp add: new_obj_def sample_heap_def)
  have rp: "repetition sample_gen sample_run TrioBackend ''cancellation'' FnCancellation
                [(''cancellation'', 0)] 0 (sample_heap, [])
     = Inr (sample_heap @ [ODict [(''cancelled'', VInt 2), (''exceptions'', VInt 0),
                              (''settle_s'', VFloat (1 / 100)), (''tasks'', VInt 2),
                              (''cancel_after_s'', VFloat (1 / 20)),
                              (''duration_s'', VFloat (2 / 10))],
                       ODict [(''task_count'', VInt 2), (''cancel_after_s'', VFloat (1 / 20))],
                       ODict [(''library'', VStr ''trio''), (''scenario'', VStr ''cancellation''),
                              (''params'', VRef 2), (''metrics'', VRef 1),
                              (''rep'', VInt 1), (''duration_s'', VFloat (3 / 10))]], [3])"
    unfolding repetition_def sample_run_def
    by (simp add: rb) (simp add: setitem_def sample_heap_def sample_obs_def)
  show ?thesis
    unfolding sample_storm_obj sample_run_cancellation rb rp
    by (simp add: heap_of_def sample_heap_def)
qed

end
